theory Spec2Isabelle
  imports Main "HOL-Library.AList" "HOL-Library.Multiset"
begin

section \<open>Multi-screen marquee sync server (server.js)\<close>

text \<open>
  A shallow embedding of the WebSocket hub of \<^verbatim>\<open>server.js\<close>: the player registry
  (\<^verbatim>\<open>players\<close>, a JavaScript \<^verbatim>\<open>Map\<close>), the controller set, the session anchor
  \<^verbatim>\<open>startAt\<close>, and the three event handlers of a connection (\<^verbatim>\<open>'connection'\<close>,
  \<^verbatim>\<open>'message'\<close>, \<^verbatim>\<open>'close'\<close>) together with the tick timer.  Node runs every handler
  to completion before the next event, so a handler is a function from the state to the
  new state and the list of \<^verbatim>\<open>ws.send\<close> calls it made, in order.

  Modelling conventions.
  \<^item> A JavaScript number is a double.  The model has the doubles with an integer value
    (\<open>Num n\<close>, both zeros being \<open>Num 0\<close>), the two infinities and \<^verbatim>\<open>NaN\<close>; a sum is rounded
    to the nearest double, ties to even, as IEEE 754 does.  A number in a message is such a
    double; numbers with a fraction are not modelled.
  \<^item> The fields of a parsed JSON object that the server reads as scalars hold
    \<^verbatim>\<open>undefined\<close> (field absent), \<^verbatim>\<open>null\<close>, a boolean, a number or a string (an array or
    an object as \<^verbatim>\<open>playerId\<close> would be a \<^verbatim>\<open>Map\<close> key compared by reference).  The marquee
    payload, which is only forwarded, may hold arbitrary JSON.
  \<^item> A message sent is recorded as the object handed to \<^verbatim>\<open>JSON.stringify\<close>, whether or not
    the socket delivers it; the sends the source guards by \<^verbatim>\<open>readyState === OPEN\<close> are
    recorded only for open sockets.
  \<^item> Strings are ASCII.
  \<^item> \<^verbatim>\<open>Array.prototype.sort\<close> is stable (ECMAScript 2019).
  \<^item> \<^verbatim>\<open>Date.now()\<close> is an input: the \<open>k\<close>-th call inside one handler returns \<open>clk k\<close>.
  \<^item> A \<^verbatim>\<open>Map\<close> is an association list in insertion order with distinct keys:
    \<^verbatim>\<open>set\<close> on a present key keeps its position, on a new key appends.
\<close>

subsection \<open>JavaScript values\<close>

datatype jsnum = NaN | Num int | PosInf | NegInf

datatype jsval = Undefined | Null | Bool bool | Number jsnum | Str string

text \<open>ToBoolean.\<close>

fun truthy :: "jsval \<Rightarrow> bool" where
  "truthy Undefined = False"
| "truthy Null = False"
| "truthy (Bool b) = b"
| "truthy (Number NaN) = False"
| "truthy (Number (Num n)) = (n \<noteq> 0)"
| "truthy (Number PosInf) = True"
| "truthy (Number NegInf) = True"
| "truthy (Str s) = (s \<noteq> [])"

text \<open>The left operand test of \<^verbatim>\<open>??\<close>.\<close>

fun nullish :: "jsval \<Rightarrow> bool" where
  "nullish Undefined = True"
| "nullish Null = True"
| "nullish _ = False"

definition coalesce :: "jsval \<Rightarrow> jsval \<Rightarrow> jsval" where
  "coalesce a b = (if nullish a then b else a)"

text \<open>Strict equality \<^verbatim>\<open>===\<close> on a number-or-null (\<open>None\<close> is \<^verbatim>\<open>null\<close>): \<^verbatim>\<open>NaN\<close> is not
  equal to itself.\<close>

definition strict_eq :: "jsnum option \<Rightarrow> jsnum option \<Rightarrow> bool" where
  "strict_eq a b = (a = b \<and> a \<noteq> Some NaN)"

subsection \<open>Double precision\<close>

text \<open>The number of binary digits of a natural number.\<close>

fun bitlen :: "nat \<Rightarrow> nat" where
  "bitlen n = (if n = 0 then 0 else Suc (bitlen (n div 2)))"

declare bitlen.simps [simp del]

text \<open>The double nearest to a natural number: up to \<open>2^53\<close> every integer is a double; above,
  the 53 leading binary digits are kept and the rest is rounded, ties to the even
  neighbour; \<open>None\<close> is the overflow to \<^verbatim>\<open>Infinity\<close>.\<close>

definition round_nat :: "nat \<Rightarrow> nat option" where
  "round_nat m =
     (if m < 2 ^ 53 then Some m
      else let sh = bitlen m - 53;
               q = m div 2 ^ sh;
               r = m mod 2 ^ sh;
               half = 2 ^ (sh - 1);
               q' = (if half < r \<or> (r = half \<and> odd q) then q + 1 else q);
               v = q' * 2 ^ sh
           in if v < 2 ^ 1024 then Some v else None)"

definition to_double :: "int \<Rightarrow> jsnum" where
  "to_double i =
     (case round_nat (nat \<bar>i\<bar>) of
        Some v \<Rightarrow> Num (if i < 0 then - int v else int v)
      | None \<Rightarrow> if i < 0 then NegInf else PosInf)"

text \<open>\<^verbatim>\<open>a + b\<close> on numbers.\<close>

fun js_add :: "jsnum \<Rightarrow> jsnum \<Rightarrow> jsnum" where
  "js_add (Num a) (Num b) = to_double (a + b)"
| "js_add NaN _ = NaN"
| "js_add _ NaN = NaN"
| "js_add PosInf NegInf = NaN"
| "js_add NegInf PosInf = NaN"
| "js_add PosInf _ = PosInf"
| "js_add _ PosInf = PosInf"
| "js_add NegInf _ = NegInf"
| "js_add _ NegInf = NegInf"

subsection \<open>parseInt and number formatting\<close>

definition is_space :: "char \<Rightarrow> bool" where
  "is_space ch = (ch \<in> set [CHR '' '', CHR 0x09, CHR 0x0A, CHR 0x0B, CHR 0x0C, CHR 0x0D])"

definition digit_val :: "char \<Rightarrow> nat option" where
  "digit_val ch =
     (let n = (of_char ch :: nat) in
      if 48 \<le> n \<and> n \<le> 57 then Some (n - 48)
      else if 97 \<le> n \<and> n \<le> 122 then Some (n - 87)
      else if 65 \<le> n \<and> n \<le> 90 then Some (n - 55)
      else None)"

definition is_digit :: "nat \<Rightarrow> char \<Rightarrow> bool" where
  "is_digit radix ch = (case digit_val ch of Some d \<Rightarrow> d < radix | None \<Rightarrow> False)"

definition digits_value :: "nat \<Rightarrow> string \<Rightarrow> nat" where
  "digits_value radix ds =
     foldl (\<lambda>acc ch. acc * radix + (case digit_val ch of Some d \<Rightarrow> d | None \<Rightarrow> 0)) 0 ds"

text \<open>\<^verbatim>\<open>parseInt(string)\<close> with no radix argument: leading white space, an optional sign,
  an optional \<^verbatim>\<open>0x\<close> prefix, then the longest run of digits; \<^verbatim>\<open>NaN\<close> when there is none,
  and otherwise the double nearest to the integer the digits denote.\<close>

definition parseInt_str :: "string \<Rightarrow> jsnum" where
  "parseInt_str s =
     (let s1 = dropWhile is_space s;
          neg = (case s1 of ch # _ \<Rightarrow> ch = CHR ''-'' | [] \<Rightarrow> False);
          s2 = (case s1 of ch # r \<Rightarrow> if ch = CHR ''-'' \<or> ch = CHR ''+'' then r else s1 | [] \<Rightarrow> s1);
          hex = (case s2 of a # b # _ \<Rightarrow> a = CHR ''0'' \<and> (b = CHR ''x'' \<or> b = CHR ''X'') | _ \<Rightarrow> False);
          radix = (if hex then 16 else 10);
          s3 = (if hex then drop 2 s2 else s2);
          ds = takeWhile (is_digit radix) s3
      in if ds = [] then NaN
         else to_double (if neg then - int (digits_value radix ds) else int (digits_value radix ds)))"

text \<open>The number of decimal digits of a natural number.\<close>

fun declen :: "nat \<Rightarrow> nat" where
  "declen n = (if n < 10 then 1 else Suc (declen (n div 10)))"

declare declen.simps [simp del]

text \<open>\<^verbatim>\<open>Number.prototype.toString\<close> prints a double \<open>m\<close> of \<open>10^21\<close> or more in exponent
  notation, with the digits \<open>s\<close> of the shortest decimal \<open>s * 10^j\<close> that rounds to \<open>m\<close>;
  of two such decimals with \<open>k\<close> digits the nearer to \<open>m\<close>, and the even one when both are
  as near.  \<open>candidate m k\<close> is that \<open>s\<close> for \<open>k\<close> digits, if there is one; seventeen digits
  always suffice.\<close>

definition candidate :: "nat \<Rightarrow> nat \<Rightarrow> nat option" where
  "candidate m k =
     (let p = 10 ^ (declen m - k);
          lo = m div p;
          hi = lo + 1;
          lo_ok = (round_nat (lo * p) = Some m);
          hi_ok = (round_nat (hi * p) = Some m)
      in if lo_ok \<and> hi_ok then
           (if m - lo * p < hi * p - m then Some lo
            else if hi * p - m < m - lo * p then Some hi
            else if even lo then Some lo else Some hi)
         else if lo_ok then Some lo
         else if hi_ok then Some hi
         else None)"

fun shortest :: "nat \<Rightarrow> nat \<Rightarrow> nat \<Rightarrow> (nat \<times> nat) option" where
  "shortest m k 0 = None"
| "shortest m k (Suc fuel) =
     (case candidate m k of Some s \<Rightarrow> Some (s, k) | None \<Rightarrow> shortest m (Suc k) fuel)"

text \<open>The first digit of that notation, which is all that \<^verbatim>\<open>parseInt\<close> reads of it (the next
  character is \<^verbatim>\<open>.\<close> or \<^verbatim>\<open>e\<close>).\<close>

definition leading_digit :: "nat \<Rightarrow> nat" where
  "leading_digit m =
     (case shortest m 1 17 of
        Some (s, k) \<Rightarrow> if s < 10 ^ k then s div 10 ^ (k - 1) else 1
      | None \<Rightarrow> m div 10 ^ (declen m - 1))"

text \<open>\<^verbatim>\<open>parseInt(v)\<close> converts \<open>v\<close> to a string first.  A double below \<open>10^21\<close> in magnitude
  prints as a decimal numeral that parses back to it; a larger one prints in exponent
  notation, of which the first digit is read; \<^verbatim>\<open>"Infinity"\<close>, \<^verbatim>\<open>"true"\<close>, \<^verbatim>\<open>"null"\<close>,
  \<^verbatim>\<open>"undefined"\<close> and \<^verbatim>\<open>"NaN"\<close> have no leading digit.\<close>

definition parseInt_num :: "int \<Rightarrow> jsnum" where
  "parseInt_num n =
     (case to_double n of
        Num d \<Rightarrow> if \<bar>d\<bar> < 10 ^ 21 then Num d
                 else Num (if d < 0 then - int (leading_digit (nat \<bar>d\<bar>))
                           else int (leading_digit (nat \<bar>d\<bar>)))
      | _ \<Rightarrow> NaN)"

fun parseInt :: "jsval \<Rightarrow> jsnum" where
  "parseInt (Number (Num n)) = parseInt_num n"
| "parseInt (Str s) = parseInt_str s"
| "parseInt _ = NaN"

fun show_nat :: "nat \<Rightarrow> string" where
  "show_nat n =
     (if n < 10 then [''0123456789'' ! n]
      else show_nat (n div 10) @ [''0123456789'' ! (n mod 10)])"

declare show_nat.simps [simp del]

definition show_int :: "int \<Rightarrow> string" where
  "show_int i = (if i < 0 then CHR ''-'' # show_nat (nat (- i)) else show_nat (nat i))"

subsection \<open>Messages\<close>

text \<open>\<^verbatim>\<open>{screenCount, screenIndex, offsetPx}\<close>; a property that is missing reads as
  \<^verbatim>\<open>undefined\<close>.\<close>

record config =
  screenCount :: jsval
  screenIndex :: jsval
  offsetPx :: jsval

text \<open>Arbitrary JSON, for the marquee payload.\<close>

datatype json = JVal jsval | JArr "json list" | JObj "(string \<times> json) list"

fun truthy_json :: "json \<Rightarrow> bool" where
  "truthy_json (JVal v) = truthy v"
| "truthy_json (JArr _) = True"
| "truthy_json (JObj _) = True"

fun is_array :: "json \<Rightarrow> bool" where
  "is_array (JArr _) = True"
| "is_array _ = False"

text \<open>The parsed object \<^verbatim>\<open>msg\<close>.  \<open>m_config\<close> is \<open>None\<close> when \<^verbatim>\<open>msg.config\<close> is absent or
  falsy, and otherwise holds what its three properties read as.\<close>

record msg =
  m_type :: jsval
  m_role :: jsval
  m_playerId :: jsval
  m_actualWidth :: jsval
  m_config :: "config option"
  m_screenCount :: jsval
  m_screenIndex :: jsval
  m_offsetPx :: jsval
  m_text :: json
  m_speed :: json
  m_styles :: json
  m_images :: json

text \<open>What arrives on the socket, by what \<^verbatim>\<open>JSON.parse\<close> makes of it: text that it rejects
  (\<open>Malformed\<close>); the value \<^verbatim>\<open>null\<close> (\<open>Parsed_null\<close>); a number, a string, a boolean or an
  array, none of which has a property \<^verbatim>\<open>type\<close> (\<open>Parsed_other\<close>); or an object.\<close>

datatype inbound = Malformed | Parsed_null | Parsed_other | Parsed msg

text \<open>An element of the list built by \<^verbatim>\<open>getPlayerList\<close>.\<close>

record item =
  item_playerId :: jsval
  item_config :: config
  item_actualWidth :: "jsnum option"
  item_connectedAt :: int

text \<open>The messages the server sends.\<close>

datatype out_msg =
    Init int int "jsval option" "config option"
  | PlayersMsg "item list"
  | ConfigMsg config
  | MarqueeMsg json json json json
  | ResetMsg int int
  | TickMsg int int

text \<open>\<open>Init startAt now playerId config\<close>, \<open>ResetMsg startAt now\<close>, \<open>TickMsg now startAt\<close>,
  \<open>MarqueeMsg text speed styles images\<close>.\<close>

subsection \<open>State\<close>

datatype ready_state = CONNECTING | OPEN | CLOSING | CLOSED

text \<open>A connection: the closure variables \<^verbatim>\<open>role\<close> and \<^verbatim>\<open>playerId\<close> of its handlers and
  the \<^verbatim>\<open>readyState\<close> of its socket.  Connections are named by natural numbers; one that
  has not connected yet is \<open>CONNECTING\<close>.\<close>

record conn =
  role :: jsval
  playerId :: jsval
  readyState :: ready_state

text \<open>A value of the \<^verbatim>\<open>players\<close> map.\<close>

record player =
  ws :: nat
  config :: config
  actualWidth :: "jsnum option"
  connectedAt :: int

record state =
  startAt :: int
  players :: "(jsval \<times> player) list"
  controllers :: "nat list"
  conns :: "nat \<Rightarrow> conn"

type_synonym sent = "nat \<times> out_msg"

definition new_conn :: conn where
  "new_conn = \<lparr>role = Null, playerId = Null, readyState = CONNECTING\<rparr>"

definition initial :: "int \<Rightarrow> state" where
  "initial t0 = \<lparr>startAt = t0, players = [], controllers = [], conns = (\<lambda>_. new_conn)\<rparr>"

definition is_open :: "state \<Rightarrow> nat \<Rightarrow> bool" where
  "is_open s w = (readyState (conns s w) = OPEN)"

subsection \<open>Broadcasts and the player list\<close>

definition broadcastToControllers :: "state \<Rightarrow> out_msg \<Rightarrow> sent list" where
  "broadcastToControllers s data = map (\<lambda>w. (w, data)) (filter (is_open s) (controllers s))"

definition broadcastToPlayers :: "state \<Rightarrow> out_msg \<Rightarrow> sent list" where
  "broadcastToPlayers s data =
     map (\<lambda>kv. (ws (snd kv), data)) (filter (\<lambda>kv. is_open s (ws (snd kv))) (players s))"

definition to_item :: "jsval \<times> player \<Rightarrow> item" where
  "to_item kv = \<lparr>item_playerId = fst kv, item_config = config (snd kv),
                 item_actualWidth = actualWidth (snd kv), item_connectedAt = connectedAt (snd kv)\<rparr>"

definition getPlayerList :: "state \<Rightarrow> item list" where
  "getPlayerList s = sort_key item_connectedAt (map to_item (players s))"

definition notifyPlayersUpdate :: "state \<Rightarrow> sent list" where
  "notifyPlayersUpdate s = broadcastToControllers s (PlayersMsg (getPlayerList s))"

subsection \<open>The message handler\<close>

datatype error = TypeError

definition default_config :: config where
  "default_config = \<lparr>screenCount = Number (Num 2), screenIndex = Number (Num 1),
                     offsetPx = Number (Num 0)\<rparr>"

text \<open>\<^verbatim>\<open>ws.close()\<close> on an open socket starts the closing handshake.\<close>

definition ws_close :: "state \<Rightarrow> nat \<Rightarrow> state" where
  "ws_close s w = s\<lparr>conns := (conns s)(w := (conns s w)\<lparr>readyState := CLOSING\<rparr>)\<rparr>"

text \<open>\<^verbatim>\<open>controllers.add(ws)\<close>.\<close>

definition set_add :: "nat \<Rightarrow> nat list \<Rightarrow> nat list" where
  "set_add w cs = (if w \<in> set cs then cs else cs @ [w])"

text \<open>\<^verbatim>\<open>case 'hello'\<close>.\<close>

definition hello :: "state \<Rightarrow> nat \<Rightarrow> msg \<Rightarrow> (nat \<Rightarrow> int) \<Rightarrow> state \<times> sent list" where
  "hello s c msg clk =
     (let s0 = s\<lparr>conns := (conns s)(c := (conns s c)\<lparr>role := m_role msg\<rparr>)\<rparr> in
      if m_role msg = Str ''player'' then
        let given = truthy (m_playerId msg);
            pid = (if given then m_playerId msg else Str (''player-'' @ show_int (clk 0)));
            k = (if given then 0 else 1);
            s1 = s0\<lparr>conns := (conns s0)(c := (conns s0 c)\<lparr>playerId := pid\<rparr>)\<rparr>;
            s2 = (case map_of (players s1) pid of
                    Some existing \<Rightarrow> if is_open s1 (ws existing) then ws_close s1 (ws existing) else s1
                  | None \<Rightarrow> s1);
            aw = (if truthy (m_actualWidth msg) then Some (parseInt (m_actualWidth msg)) else None);
            cfg = (case m_config msg of Some given_cfg \<Rightarrow> given_cfg | None \<Rightarrow> default_config);
            s3 = s2\<lparr>players := AList.update pid
                     \<lparr>ws = c, config = cfg, actualWidth = aw, connectedAt = clk k\<rparr> (players s2)\<rparr>
        in (s3, (c, Init (startAt s3) (clk (k + 1)) (Some pid) (Some cfg)) # notifyPlayersUpdate s3)
      else if m_role msg = Str ''controller'' then
        let s1 = s0\<lparr>controllers := set_add c (controllers s0)\<rparr>
        in (s1, [(c, Init (startAt s1) (clk 0) None None), (c, PlayersMsg (getPlayerList s1))])
      else (s0, []))"

text \<open>\<^verbatim>\<open>case 'setConfig'\<close>.\<close>

definition setConfig :: "state \<Rightarrow> nat \<Rightarrow> msg \<Rightarrow> state \<times> sent list" where
  "setConfig s c msg =
     (if role (conns s c) = Str ''controller'' \<and> truthy (m_playerId msg) then
        (case map_of (players s) (m_playerId msg) of
           Some player \<Rightarrow>
             let cfg = \<lparr>screenCount = coalesce (m_screenCount msg) (screenCount (config player)),
                        screenIndex = coalesce (m_screenIndex msg) (screenIndex (config player)),
                        offsetPx = coalesce (m_offsetPx msg)
                                     (coalesce (offsetPx (config player)) (Number (Num 0)))\<rparr>;
                 s1 = s\<lparr>players := AList.update (m_playerId msg) (player\<lparr>config := cfg\<rparr>) (players s)\<rparr>
             in (s1, (if is_open s1 (ws player) then [(ws player, ConfigMsg cfg)] else [])
                     @ notifyPlayersUpdate s1)
         | None \<Rightarrow> (s, []))
      else (s, []))"

text \<open>\<^verbatim>\<open>if (player.actualWidth) { cumulativeOffset += player.actualWidth; }\<close>\<close>

definition add_width :: "jsnum \<Rightarrow> jsnum option \<Rightarrow> jsnum" where
  "add_width cumulativeOffset w =
     (case w of
        Some x \<Rightarrow> if truthy (Number x) then js_add cumulativeOffset x else cumulativeOffset
      | None \<Rightarrow> cumulativeOffset)"

text \<open>The body of \<^verbatim>\<open>list.forEach((item, idx) => ...)\<close> in \<^verbatim>\<open>case 'quickApply'\<close>, from index
  \<open>idx\<close> with the running \<^verbatim>\<open>cumulativeOffset\<close>.\<close>

fun quickApply_loop :: "state \<Rightarrow> nat \<Rightarrow> item list \<Rightarrow> nat \<Rightarrow> jsnum \<Rightarrow> state \<times> sent list" where
  "quickApply_loop s n [] idx cumulativeOffset = (s, [])"
| "quickApply_loop s n (it # rest) idx cumulativeOffset =
     (case map_of (players s) (item_playerId it) of
        None \<Rightarrow> quickApply_loop s n rest (idx + 1) cumulativeOffset
      | Some player \<Rightarrow>
          let cfg = \<lparr>screenCount = Number (Num (int n)), screenIndex = Number (Num (int idx + 1)),
                     offsetPx = Number cumulativeOffset\<rparr>;
              s1 = s\<lparr>players := AList.update (item_playerId it) (player\<lparr>config := cfg\<rparr>) (players s)\<rparr>;
              out = (if is_open s1 (ws player) then [(ws player, ConfigMsg cfg)] else []);
              r = quickApply_loop s1 n rest (idx + 1)
                    (add_width cumulativeOffset (actualWidth player))
          in (fst r, out @ snd r))"

text \<open>\<^verbatim>\<open>case 'quickApply'\<close>.\<close>

definition quickApply :: "state \<Rightarrow> nat \<Rightarrow> state \<times> sent list" where
  "quickApply s c =
     (if role (conns s c) = Str ''controller'' then
        let list = getPlayerList s;
            r = quickApply_loop s (length list) list 0 (Num 0)
        in (fst r, snd r @ notifyPlayersUpdate (fst r))
      else (s, []))"

text \<open>\<^verbatim>\<open>case 'updateMarquee'\<close>.  \<^verbatim>\<open>marqueeData.images.map\<close> throws a \<^verbatim>\<open>TypeError\<close> when
  \<^verbatim>\<open>msg.images\<close> is truthy and not an array.\<close>

definition updateMarquee :: "state \<Rightarrow> nat \<Rightarrow> msg \<Rightarrow> error + state \<times> sent list" where
  "updateMarquee s c msg =
     (if role (conns s c) = Str ''controller'' then
        let speed = (if truthy_json (m_speed msg) then m_speed msg else JVal (Number (Num 120)));
            styles = (if truthy_json (m_styles msg) then m_styles msg else JVal Null);
            images = (if truthy_json (m_images msg) then m_images msg else JArr [])
        in if is_array images
           then Inr (s, broadcastToPlayers s (MarqueeMsg (m_text msg) speed styles images))
           else Inl TypeError
      else Inr (s, []))"

text \<open>\<^verbatim>\<open>case 'reportWidth'\<close>.\<close>

definition reportWidth :: "state \<Rightarrow> nat \<Rightarrow> msg \<Rightarrow> state \<times> sent list" where
  "reportWidth s c msg =
     (if role (conns s c) = Str ''player'' \<and> truthy (playerId (conns s c)) then
        (case map_of (players s) (playerId (conns s c)) of
           Some player \<Rightarrow>
             let oldWidth = actualWidth player;
                 newWidth = (if truthy (m_actualWidth msg) then Some (parseInt (m_actualWidth msg))
                             else None);
                 s1 = s\<lparr>players := AList.update (playerId (conns s c))
                          (player\<lparr>actualWidth := newWidth\<rparr>) (players s)\<rparr>
             in (s1, if \<not> strict_eq oldWidth newWidth then notifyPlayersUpdate s1 else [])
         | None \<Rightarrow> (s, []))
      else (s, []))"

text \<open>\<^verbatim>\<open>case 'resetStartAt'\<close>.  \<^verbatim>\<open>startAt\<close> is a \<^verbatim>\<open>const\<close>: the handler only broadcasts.\<close>

definition resetStartAt :: "state \<Rightarrow> nat \<Rightarrow> (nat \<Rightarrow> int) \<Rightarrow> state \<times> sent list" where
  "resetStartAt s c clk =
     (if role (conns s c) = Str ''controller'' then
        let newStartAt = clk 0
        in (s, broadcastToPlayers s (ResetMsg newStartAt newStartAt)
               @ broadcastToControllers s (ResetMsg newStartAt newStartAt))
      else (s, []))"

text \<open>\<^verbatim>\<open>ws.on('message', ...)\<close> of connection \<open>c\<close>.  The \<^verbatim>\<open>try\<close> block holds \<^verbatim>\<open>JSON.parse\<close>
  alone: on the value \<^verbatim>\<open>null\<close>, reading \<^verbatim>\<open>msg.type\<close> for the \<^verbatim>\<open>switch\<close> throws a
  \<^verbatim>\<open>TypeError\<close> that nothing catches.\<close>

fun on_message :: "state \<Rightarrow> nat \<Rightarrow> inbound \<Rightarrow> (nat \<Rightarrow> int) \<Rightarrow> error + state \<times> sent list" where
  "on_message s c Malformed clk = Inr (s, [])"
| "on_message s c Parsed_null clk = Inl TypeError"
| "on_message s c Parsed_other clk = Inr (s, [])"
| "on_message s c (Parsed msg) clk =
     (if m_type msg = Str ''hello'' then Inr (hello s c msg clk)
      else if m_type msg = Str ''setConfig'' then Inr (setConfig s c msg)
      else if m_type msg = Str ''quickApply'' then Inr (quickApply s c)
      else if m_type msg = Str ''updateMarquee'' then updateMarquee s c msg
      else if m_type msg = Str ''reportWidth'' then Inr (reportWidth s c msg)
      else if m_type msg = Str ''resetStartAt'' then Inr (resetStartAt s c clk)
      else Inr (s, []))"

subsection \<open>Connection, close and tick\<close>

text \<open>\<^verbatim>\<open>wss.on('connection', ...)\<close>: \<^verbatim>\<open>let role = null; let playerId = null\<close> on an open
  socket.\<close>

definition on_connection :: "state \<Rightarrow> nat \<Rightarrow> state" where
  "on_connection s c = s\<lparr>conns := (conns s)(c := \<lparr>role = Null, playerId = Null, readyState = OPEN\<rparr>)\<rparr>"

text \<open>\<^verbatim>\<open>ws.on('close', ...)\<close>; the socket is \<open>CLOSED\<close> when the event is emitted.\<close>

definition on_close :: "state \<Rightarrow> nat \<Rightarrow> state \<times> sent list" where
  "on_close s c =
     (let s0 = s\<lparr>conns := (conns s)(c := (conns s c)\<lparr>readyState := CLOSED\<rparr>)\<rparr> in
      if role (conns s0 c) = Str ''player'' \<and> truthy (playerId (conns s0 c)) then
        let s1 = s0\<lparr>players := AList.delete (playerId (conns s0 c)) (players s0)\<rparr>
        in (s1, notifyPlayersUpdate s1)
      else if role (conns s0 c) = Str ''controller'' then
        (s0\<lparr>controllers := removeAll c (controllers s0)\<rparr>, [])
      else (s0, []))"

text \<open>The \<^verbatim>\<open>setInterval\<close> callback.\<close>

definition on_tick :: "state \<Rightarrow> int \<Rightarrow> sent list" where
  "on_tick s now = broadcastToPlayers s (TickMsg now (startAt s))
                   @ broadcastToControllers s (TickMsg now (startAt s))"

subsection \<open>Runs of the server\<close>

datatype event =
    Connection nat
  | Message nat inbound "nat \<Rightarrow> int"
  | Close nat
  | Tick int

text \<open>One event.  \<open>None\<close> when the event cannot occur (a message on a socket that is not
  connected or already closed) or when the handler throws: the server installs no handler
  for uncaught exceptions, so a throw ends the process and the run.\<close>

fun step :: "state \<Rightarrow> event \<Rightarrow> (state \<times> sent list) option" where
  "step s (Connection c) =
     (if readyState (conns s c) = CONNECTING then Some (on_connection s c, []) else None)"
| "step s (Message c raw clk) =
     (if readyState (conns s c) = OPEN \<or> readyState (conns s c) = CLOSING
      then (case on_message s c raw clk of Inr r \<Rightarrow> Some r | Inl _ \<Rightarrow> None)
      else None)"
| "step s (Close c) =
     (if readyState (conns s c) = OPEN \<or> readyState (conns s c) = CLOSING
      then Some (on_close s c) else None)"
| "step s (Tick now) = Some (s, on_tick s now)"

fun run :: "state \<Rightarrow> event list \<Rightarrow> (state \<times> sent list) option" where
  "run s [] = Some (s, [])"
| "run s (e # es) =
     (case step s e of
        None \<Rightarrow> None
      | Some (s1, out1) \<Rightarrow>
          (case run s1 es of None \<Rightarrow> None | Some (s2, out2) \<Rightarrow> Some (s2, out1 @ out2)))"

inductive reachable :: "state \<Rightarrow> bool" where
  reachable_initial: "reachable (initial t0)"
| reachable_step: "reachable s \<Longrightarrow> step s e = Some (s', out) \<Longrightarrow> reachable s'"

text \<open>The events of a list, in order, skipping those that cannot occur.\<close>

fun after :: "state \<Rightarrow> event list \<Rightarrow> state" where
  "after s [] = s"
| "after s (e # es) = (case step s e of Some r \<Rightarrow> after (fst r) es | None \<Rightarrow> after s es)"

text \<open>Observations of a run from the initial state: a component of the final state, and
  what a second list of events sends after a first.\<close>

definition observe :: "(state \<Rightarrow> 'a) \<Rightarrow> int \<Rightarrow> event list \<Rightarrow> 'a option" where
  "observe f t0 evs = map_option (f \<circ> fst) (run (initial t0) evs)"

definition sent_after :: "int \<Rightarrow> event list \<Rightarrow> event list \<Rightarrow> sent list option" where
  "sent_after t0 before evs =
     (case run (initial t0) before of
        None \<Rightarrow> None
      | Some r \<Rightarrow> map_option snd (run (fst r) evs))"

definition conn_of :: "nat \<Rightarrow> state \<Rightarrow> conn" where
  "conn_of c s = conns s c"

text \<open>The ids of the player list in its order, the set of registry entries, and the
  \<^verbatim>\<open>offsetPx\<close> of a player.\<close>

definition listed :: "state \<Rightarrow> jsval list" where
  "listed s = map item_playerId (getPlayerList s)"


definition offset_of :: "jsval \<Rightarrow> state \<Rightarrow> jsval option" where
  "offset_of k s = map_option (offsetPx \<circ> config) (map_of (players s) k)"

subsection \<open>Vocabulary of the properties\<close>

text \<open>A \<^verbatim>\<open>hello\<close> message, and a \<^verbatim>\<open>hello\<close> message arriving on connection \<open>c\<close>.\<close>

fun is_hello :: "inbound \<Rightarrow> bool" where
  "is_hello (Parsed msg) = (m_type msg = Str ''hello'')"
| "is_hello _ = False"

fun hello_on :: "nat \<Rightarrow> event \<Rightarrow> bool" where
  "hello_on c (Message c' raw clk) = (c' = c \<and> is_hello raw)"
| "hello_on c _ = False"

text \<open>A role that is neither \<^verbatim>\<open>'player'\<close> nor \<^verbatim>\<open>'controller'\<close>; the initial \<^verbatim>\<open>null\<close> is
  one.\<close>

definition no_role :: "jsval \<Rightarrow> bool" where
  "no_role r = (r \<noteq> Str ''player'' \<and> r \<noteq> Str ''controller'')"

text \<open>The registry as a \<^verbatim>\<open>Map\<close> whose keys passed the truthiness test of \<^verbatim>\<open>hello\<close>.\<close>

definition registry_ok :: "state \<Rightarrow> bool" where
  "registry_ok s = (distinct (map fst (players s)) \<and> list_all truthy (map fst (players s)))"

text \<open>The offset formula of the specification, to be compared with the loop of
  \<^verbatim>\<open>quickApply\<close>: a known width counts as itself, an unknown one as zero, and the offset of
  position \<open>i\<close> is the sum over the positions before it.\<close>

definition known_width :: "jsnum option \<Rightarrow> int" where
  "known_width w = (case w of Some (Num n) \<Rightarrow> n | _ \<Rightarrow> 0)"

definition spec_offset :: "item list \<Rightarrow> nat \<Rightarrow> int" where
  "spec_offset p i = sum_list (map (\<lambda>x. known_width (item_actualWidth x)) (take i p))"

text \<open>The offset that the formula gives to position \<open>i\<close> of the player list of a state.\<close>

definition claimed_offset :: "nat \<Rightarrow> state \<Rightarrow> int" where
  "claimed_offset i s = spec_offset (getPlayerList s) i"

text \<open>\<^verbatim>\<open>Number.MAX_SAFE_INTEGER\<close>, and widths that are finite and whose running sums, from
  \<open>acc\<close> on, stay within it.\<close>

definition max_safe :: int where
  "max_safe = 2 ^ 53 - 1"

fun safe_sums :: "jsnum option list \<Rightarrow> int \<Rightarrow> bool" where
  "safe_sums [] acc = True"
| "safe_sums (w # rest) acc =
     (w \<noteq> Some PosInf \<and> w \<noteq> Some NegInf \<and> \<bar>acc + known_width w\<bar> \<le> max_safe
      \<and> safe_sums rest (acc + known_width w))"

text \<open>What \<^verbatim>\<open>cumulativeOffset\<close> holds when the loop of \<^verbatim>\<open>quickApply\<close> reaches position \<open>i\<close> of
  the list \<open>p\<close>.\<close>

definition offset_at :: "item list \<Rightarrow> nat \<Rightarrow> jsnum" where
  "offset_at p i = foldl add_width (Num 0) (map item_actualWidth (take i p))"

text \<open>The four properties of a list element, and the same four of a registry entry.\<close>

definition item_fields :: "item \<Rightarrow> jsval \<times> config \<times> jsnum option \<times> int" where
  "item_fields it = (item_playerId it, item_config it, item_actualWidth it, item_connectedAt it)"

definition entry_fields :: "jsval \<times> player \<Rightarrow> jsval \<times> config \<times> jsnum option \<times> int" where
  "entry_fields kv = (fst kv, config (snd kv), actualWidth (snd kv), connectedAt (snd kv))"

subsection \<open>Example messages and runs\<close>

definition no_fields :: msg where
  "no_fields = \<lparr>m_type = Undefined, m_role = Undefined, m_playerId = Undefined,
     m_actualWidth = Undefined, m_config = None, m_screenCount = Undefined,
     m_screenIndex = Undefined, m_offsetPx = Undefined, m_text = JVal Undefined,
     m_speed = JVal Undefined, m_styles = JVal Undefined, m_images = JVal Undefined\<rparr>"

text \<open>A clock that reads \<open>t\<close> at every call.\<close>

definition at :: "int \<Rightarrow> nat \<Rightarrow> int" where
  "at t k = t"

definition hello_controller :: inbound where
  "hello_controller = Parsed (no_fields\<lparr>m_type := Str ''hello'', m_role := Str ''controller''\<rparr>)"

definition hello_player :: "string \<Rightarrow> jsval \<Rightarrow> inbound" where
  "hello_player pid w = Parsed (no_fields\<lparr>m_type := Str ''hello'', m_role := Str ''player'',
     m_playerId := Str pid, m_actualWidth := w\<rparr>)"

definition command :: "string \<Rightarrow> inbound" where
  "command t = Parsed (no_fields\<lparr>m_type := Str t\<rparr>)"

definition report_width :: "jsval \<Rightarrow> inbound" where
  "report_width w = Parsed (no_fields\<lparr>m_type := Str ''reportWidth'', m_actualWidth := w\<rparr>)"

text \<open>A controller on connection 0 and player \<^verbatim>\<open>A\<close> on connection 1.\<close>

definition one_controller_one_player :: "event list" where
  "one_controller_one_player =
     [Connection 0, Message 0 hello_controller (at 10),
      Connection 1, Message 1 (hello_player ''A'' (Number (Num 1920))) (at 11)]"

definition lobby :: state where
  "lobby = after (initial 0) one_controller_one_player"

text \<open>Player \<^verbatim>\<open>A\<close> registers on connection 1 and again on connection 2.\<close>

definition reconnect :: "event list" where
  "reconnect = [Connection 1, Message 1 (hello_player ''A'' Undefined) (at 11),
                Connection 2, Message 2 (hello_player ''A'' Undefined) (at 12)]"

text \<open>A controller and the players \<^verbatim>\<open>A\<close> (1920), \<^verbatim>\<open>B\<close> (1080), \<^verbatim>\<open>C\<close> (no width) and
  \<^verbatim>\<open>D\<close> (800), connected in this order.\<close>

definition four_players :: "event list" where
  "four_players =
     [Connection 0, Message 0 hello_controller (at 10),
      Connection 1, Message 1 (hello_player ''A'' (Number (Num 1920))) (at 11),
      Connection 2, Message 2 (hello_player ''B'' (Number (Num 1080))) (at 12),
      Connection 3, Message 3 (hello_player ''C'' Undefined) (at 13),
      Connection 4, Message 4 (hello_player ''D'' (Number (Num 800))) (at 14)]"

definition wall :: state where
  "wall = after (initial 0) four_players"

text \<open>The same with a third, fresh connection 2.\<close>

definition lobby_plus :: state where
  "lobby_plus = after (initial 0) (one_controller_one_player @ [Connection 2])"



definition hello_viewer :: msg where
  "hello_viewer = no_fields\<lparr>m_type := Str ''hello'', m_role := Str ''viewer''\<rparr>"

definition set_index_only :: "string \<Rightarrow> msg" where
  "set_index_only pid = no_fields\<lparr>m_type := Str ''setConfig'', m_playerId := Str pid,
      m_screenIndex := Number (Num 3)\<rparr>"



text \<open>Events that are not a \<^verbatim>\<open>hello\<close> on connection 1.\<close>

definition busy :: "event list" where
  "busy = [Message 1 (report_width (Number (Num 800))) (at 12), Tick 13,
           Message 0 (command ''quickApply'') (at 14), Message 0 hello_controller (at 15)]"

text \<open>\<^verbatim>\<open>D\<close> (800) registers first, on connection 9; then a controller and \<^verbatim>\<open>A\<close> (1920),
  \<^verbatim>\<open>B\<close> (1080) and \<^verbatim>\<open>C\<close> (no width) connect; then \<^verbatim>\<open>D\<close> registers again, on connection 4.
  The entry of \<^verbatim>\<open>D\<close> keeps the first position of the \<^verbatim>\<open>Map\<close> and has the latest connect
  time.\<close>

definition four_players_d_first :: "event list" where
  "four_players_d_first =
     [Connection 9, Message 9 (hello_player ''D'' (Number (Num 800))) (at 5),
      Connection 0, Message 0 hello_controller (at 10),
      Connection 1, Message 1 (hello_player ''A'' (Number (Num 1920))) (at 11),
      Connection 2, Message 2 (hello_player ''B'' (Number (Num 1080))) (at 12),
      Connection 3, Message 3 (hello_player ''C'' Undefined) (at 13),
      Connection 4, Message 4 (hello_player ''D'' (Number (Num 800))) (at 14)]"

definition wall_d_first :: state where
  "wall_d_first = after (initial 0) four_players_d_first"

text \<open>A controller and four players of widths \<open>2^53\<close>, 1, 1 and 1.\<close>

definition large_widths :: "event list" where
  "large_widths =
     [Connection 0, Message 0 hello_controller (at 10),
      Connection 1, Message 1 (hello_player ''A'' (Number (Num 9007199254740992))) (at 11),
      Connection 2, Message 2 (hello_player ''B'' (Number (Num 1))) (at 12),
      Connection 3, Message 3 (hello_player ''C'' (Number (Num 1))) (at 13),
      Connection 4, Message 4 (hello_player ''D'' (Number (Num 1))) (at 14)]"



section \<open>Properties\<close>

lemmas eval_simps = observe_def sent_after_def conn_of_def one_controller_one_player_def reconnect_def
  hello_controller_def hello_player_def command_def report_width_def no_fields_def at_def
  initial_def new_conn_def on_connection_def on_close_def on_tick_def hello_def setConfig_def
  quickApply_def reportWidth_def resetStartAt_def updateMarquee_def Let_def
  is_open_def ws_close_def set_add_def notifyPlayersUpdate_def getPlayerList_def to_item_def
  broadcastToControllers_def broadcastToPlayers_def default_config_def strict_eq_def
  parseInt_str_def is_space_def is_digit_def digit_val_def digits_value_def coalesce_def
  parseInt_num_def to_double_def round_nat_def add_width_def

lemmas fixture_simps = eval_simps lobby_def wall_def four_players_def

subsection \<open>The loop of quickApply\<close>

text \<open>The loop changes nothing but the \<^verbatim>\<open>config\<close> of the players it visits, and it visits
  the players of the list in order.\<close>

lemma loop_frame:
  "conns (fst (quickApply_loop s n items idx cum)) = conns s \<and>
   startAt (fst (quickApply_loop s n items idx cum)) = startAt s \<and>
   controllers (fst (quickApply_loop s n items idx cum)) = controllers s \<and>
   map fst (players (fst (quickApply_loop s n items idx cum))) = map fst (players s)"
proof (induction items arbitrary: s idx cum)
  case Nil
  then show ?case by simp
next
  case (Cons it rest)
  show ?case
  proof (cases "map_of (players s) (item_playerId it)")
    case None
    then show ?thesis using Cons.IH by simp
  next
    case (Some player)
    then have "item_playerId it \<in> set (map fst (players s))"
      by (metis map_of_eq_None_iff option.distinct(1) set_map)
    then show ?thesis using Some Cons.IH
      by (simp add: Let_def AList.update_keys)
  qed
qed

lemma loop_other:
  "k \<notin> item_playerId ` set items \<Longrightarrow>
   map_of (players (fst (quickApply_loop s n items idx cum))) k = map_of (players s) k"
proof (induction items arbitrary: s idx cum)
  case Nil
  then show ?case by simp
next
  case (Cons it rest)
  then show ?case
    by (cases "map_of (players s) (item_playerId it)") (auto simp: Let_def AList.update_conv')
qed

lemma loop_assigns:
  assumes "distinct (map item_playerId items)"
    and "\<forall>it \<in> set items. \<exists>p. map_of (players s) (item_playerId it) = Some p
            \<and> actualWidth p = item_actualWidth it"
    and "i < length items"
  shows "\<exists>p. map_of (players s) (item_playerId (items ! i)) = Some p \<and>
           map_of (players (fst (quickApply_loop s n items idx cum))) (item_playerId (items ! i)) =
             Some (p\<lparr>config := \<lparr>screenCount = Number (Num (int n)),
                                screenIndex = Number (Num (int (idx + i) + 1)),
                                offsetPx = Number (foldl add_width cum
                                             (map item_actualWidth (take i items)))\<rparr>\<rparr>)"
  using assms
proof (induction items arbitrary: s idx cum i)
  case Nil
  then show ?case by simp
next
  case (Cons it rest)
  from Cons.prems(2) obtain player where
    pl: "map_of (players s) (item_playerId it) = Some player"
    and w: "actualWidth player = item_actualWidth it" by auto
  define cfg where "cfg = \<lparr>screenCount = Number (Num (int n)), screenIndex = Number (Num (int idx + 1)),
                     offsetPx = Number cum\<rparr>"
  define s1 where "s1 = s\<lparr>players := AList.update (item_playerId it) (player\<lparr>config := cfg\<rparr>) (players s)\<rparr>"
  define cum' where "cum' = add_width cum (item_actualWidth it)"
  have unfold: "fst (quickApply_loop s n (it # rest) idx cum) = fst (quickApply_loop s1 n rest (idx + 1) cum')"
    using pl w by (simp add: Let_def s1_def cfg_def cum'_def)
  have notin: "item_playerId it \<notin> item_playerId ` set rest" using Cons.prems(1) by simp
  show ?case
  proof (cases i)
    case 0
    have "map_of (players (fst (quickApply_loop s1 n rest (idx + 1) cum'))) (item_playerId it)
          = map_of (players s1) (item_playerId it)"
      by (rule loop_other [OF notin])
    also have "\<dots> = Some (player\<lparr>config := cfg\<rparr>)"
      by (simp add: s1_def AList.update_conv')
    finally show ?thesis using 0 pl unfold by (simp add: cfg_def)
  next
    case (Suc j)
    have d: "distinct (map item_playerId rest)" using Cons.prems(1) by simp
    have pre: "\<forall>x \<in> set rest. \<exists>p. map_of (players s1) (item_playerId x) = Some p
            \<and> actualWidth p = item_actualWidth x"
    proof
      fix x assume x: "x \<in> set rest"
      with notin have "item_playerId x \<noteq> item_playerId it" by (metis imageI)
      then have "map_of (players s1) (item_playerId x) = map_of (players s) (item_playerId x)"
        by (simp add: s1_def AList.update_conv')
      then show "\<exists>p. map_of (players s1) (item_playerId x) = Some p \<and> actualWidth p = item_actualWidth x"
        using Cons.prems(2) x by simp
    qed
    have j: "j < length rest" using Cons.prems(3) Suc by simp
    from Cons.IH [OF d pre j, of "idx + 1" cum'] obtain p where
      p1: "map_of (players s1) (item_playerId (rest ! j)) = Some p"
      and p2: "map_of (players (fst (quickApply_loop s1 n rest (idx + 1) cum'))) (item_playerId (rest ! j)) =
             Some (p\<lparr>config := \<lparr>screenCount = Number (Num (int n)),
                                screenIndex = Number (Num (int (idx + 1 + j) + 1)),
                                offsetPx = Number (foldl add_width cum'
                                             (map item_actualWidth (take j rest)))\<rparr>\<rparr>)"
      by blast
    have ne: "item_playerId (rest ! j) \<noteq> item_playerId it"
    proof -
      have "rest ! j \<in> set rest" using j by simp
      with notin show ?thesis by (metis imageI)
    qed
    have p0: "map_of (players s) (item_playerId (rest ! j)) = Some p"
      using p1 ne by (simp add: s1_def AList.update_conv')
    show ?thesis using Suc p0 p2 unfold by (simp add: cum'_def)
  qed
qed

text \<open>Integers within \<^verbatim>\<open>Number.MAX_SAFE_INTEGER\<close> are doubles, and their sums are exact as long
  as they stay within it.\<close>

lemma to_double_safe: "\<bar>i\<bar> \<le> max_safe \<Longrightarrow> to_double i = Num i"
  by (auto simp: to_double_def round_nat_def max_safe_def)

lemma add_width_safe:
  assumes "w \<noteq> Some PosInf" and "w \<noteq> Some NegInf" and "\<bar>acc + known_width w\<bar> \<le> max_safe"
  shows "add_width (Num acc) w = Num (acc + known_width w)"
proof (cases w)
  case None
  then show ?thesis by (simp add: add_width_def known_width_def)
next
  case (Some x)
  then show ?thesis using assms
    by (cases x) (auto simp: add_width_def known_width_def to_double_safe)
qed

lemma foldl_add_width_safe:
  "safe_sums widths acc \<Longrightarrow>
   foldl add_width (Num acc) widths = Num (acc + sum_list (map known_width widths))"
proof (induction widths arbitrary: acc)
  case Nil
  then show ?case by simp
next
  case (Cons w widths)
  then have "add_width (Num acc) w = Num (acc + known_width w)"
    by (simp add: add_width_safe)
  then show ?case using Cons by (simp add: add.assoc)
qed

lemma offset_at_safe:
  "safe_sums (map item_actualWidth (take i p)) 0 \<Longrightarrow> offset_at p i = Num (spec_offset p i)"
  by (simp add: offset_at_def spec_offset_def foldl_add_width_safe comp_def)


subsection \<open>Keys of the registry\<close>

text \<open>Only a \<^verbatim>\<open>hello\<close> of a player adds a key and only a close removes one; the keys stay
  distinct and truthy in every reachable state.\<close>

lemma hello_keys:
  "map fst (players (fst (hello s c msg clk))) =
     (if m_role msg = Str ''player'' then
        (let pid = (if truthy (m_playerId msg) then m_playerId msg else Str (''player-'' @ show_int (clk 0)))
         in if pid \<in> set (map fst (players s)) then map fst (players s) else map fst (players s) @ [pid])
      else map fst (players s))"
  by (simp add: hello_def Let_def ws_close_def AList.update_keys split: option.splits)

lemma setConfig_keys: "map fst (players (fst (setConfig s c msg))) = map fst (players s)"
  by (auto simp: setConfig_def Let_def AList.update_keys split: option.splits dest: map_of_SomeD
      intro: rev_image_eqI)

lemma reportWidth_keys: "map fst (players (fst (reportWidth s c msg))) = map fst (players s)"
  by (auto simp: reportWidth_def Let_def AList.update_keys split: option.splits dest: map_of_SomeD
      intro: rev_image_eqI)

lemma quickApply_keys: "map fst (players (fst (quickApply s c))) = map fst (players s)"
  by (simp add: quickApply_def Let_def loop_frame)

lemma on_message_keys:
  assumes "on_message s c raw clk = Inr (s', out)"
  shows "map fst (players s') =
     (case raw of
        Parsed msg \<Rightarrow>
          if m_type msg = Str ''hello'' \<and> m_role msg = Str ''player'' then
            (let pid = (if truthy (m_playerId msg) then m_playerId msg else Str (''player-'' @ show_int (clk 0)))
             in if pid \<in> set (map fst (players s)) then map fst (players s) else map fst (players s) @ [pid])
          else map fst (players s)
      | _ \<Rightarrow> map fst (players s))"
proof (cases raw)
  case Malformed
  then show ?thesis using assms by auto
next
  case Parsed_null
  then show ?thesis using assms by simp
next
  case Parsed_other
  then show ?thesis using assms by auto
next
  case (Parsed msg)
  consider "m_type msg = Str ''hello''" | "m_type msg = Str ''setConfig''" | "m_type msg = Str ''quickApply''"
    | "m_type msg = Str ''updateMarquee''" | "m_type msg = Str ''reportWidth''" | "m_type msg = Str ''resetStartAt''"
    | "m_type msg \<notin> {Str ''hello'', Str ''setConfig'', Str ''quickApply'', Str ''updateMarquee'', Str ''reportWidth'', Str ''resetStartAt''}"
    by blast
  then show ?thesis
  proof cases
    case 1
    then have "s' = fst (hello s c msg clk)" using assms Parsed by auto
    then show ?thesis using 1 Parsed hello_keys [of s c msg clk] by (simp add: Let_def)
  next
    case 2
    then have "s' = fst (setConfig s c msg)" using assms Parsed by auto
    then show ?thesis using 2 Parsed setConfig_keys [of s c msg] by simp
  next
    case 3
    then have "s' = fst (quickApply s c)" using assms Parsed by auto
    then show ?thesis using 3 Parsed quickApply_keys [of s c] by simp
  next
    case 4
    then have "s' = s" using assms Parsed by (auto simp: updateMarquee_def Let_def split: if_splits)
    then show ?thesis using 4 Parsed by simp
  next
    case 5
    then have "s' = fst (reportWidth s c msg)" using assms Parsed by auto
    then show ?thesis using 5 Parsed reportWidth_keys [of s c msg] by simp
  next
    case 6
    then have "s' = s" using assms Parsed by (auto simp: resetStartAt_def Let_def split: if_splits)
    then show ?thesis using 6 Parsed by simp
  next
    case 7
    then have "s' = s" using assms Parsed by auto
    then show ?thesis using 7 Parsed by simp
  qed
qed

lemma on_close_keys:
  "map fst (players (fst (on_close s c))) =
     (if role (conns s c) = Str ''player'' \<and> truthy (playerId (conns s c))
      then removeAll (playerId (conns s c)) (map fst (players s)) else map fst (players s))"
  by (simp add: on_close_def Let_def AList.delete_keys)

lemma truthy_generated: "truthy (Str (''player-'' @ x))"
  by simp

lemma step_registry_ok:
  assumes "step s e = Some (s', out)" and "registry_ok s"
  shows "registry_ok s'"
proof (cases e)
  case (Connection c)
  then show ?thesis using assms by (auto simp: on_connection_def registry_ok_def split: if_splits)
next
  case (Message c raw clk)
  then obtain r where "on_message s c raw clk = Inr (s', out)"
    using assms(1) by (auto split: if_splits sum.splits)
  from on_message_keys [OF this] show ?thesis using assms(2)
    by (auto simp: registry_ok_def Let_def split: inbound.splits if_splits)
next
  case (Close c)
  then have "s' = fst (on_close s c)" using assms(1) by (auto split: if_splits)
  then show ?thesis using assms(2) on_close_keys [of s c]
    by (auto simp: registry_ok_def distinct_removeAll list_all_iff)
next
  case (Tick now)
  then show ?thesis using assms by auto
qed

lemma reachable_registry_ok: "reachable s \<Longrightarrow> registry_ok s"
proof (induction rule: reachable.induct)
  case (reachable_initial t0)
  then show ?case by (simp add: registry_ok_def initial_def)
next
  case (reachable_step s e s' out)
  then show ?case using step_registry_ok by blast
qed

lemma run_reachable:
  "reachable s \<Longrightarrow> run s es = Some (s', out) \<Longrightarrow> reachable s'"
proof (induction es arbitrary: s out)
  case Nil
  then show ?case by simp
next
  case (Cons e es)
  then show ?case
    by (auto split: option.splits prod.splits intro: reachable_step)
qed

lemma reachable_after: "reachable s \<Longrightarrow> reachable (after s evs)"
proof (induction evs arbitrary: s)
  case Nil
  then show ?case by simp
next
  case (Cons e evs)
  show ?case
  proof (cases "step s e")
    case None
    then show ?thesis using Cons by simp
  next
    case (Some r)
    then have "step s e = Some (fst r, snd r)" by simp
    with Cons.prems have "reachable (fst r)" by (rule reachable_step)
    then show ?thesis using Some Cons.IH by simp
  qed
qed

lemma registered_truthy:
  assumes "reachable s" and "map_of (players s) k = Some p"
  shows "truthy k"
proof -
  have "(k, p) \<in> set (players s)" using assms(2) by (rule map_of_SomeD)
  moreover have "\<forall>x \<in> set (players s). truthy (fst x)"
    using reachable_registry_ok [OF assms(1)] by (simp add: registry_ok_def list_all_iff)
  ultimately show ?thesis by force
qed

subsection \<open>Roles\<close>

text \<open>The closure variable \<^verbatim>\<open>role\<close> of a connection is assigned in \<^verbatim>\<open>case 'hello'\<close> and
  nowhere else.\<close>

lemma hello_role:
  "role (conns (fst (hello s c msg clk)) c') = (if c' = c then m_role msg else role (conns s c'))"
  by (simp add: hello_def Let_def ws_close_def is_open_def split: option.splits)

lemma setConfig_conns: "conns (fst (setConfig s c msg)) = conns s"
  by (simp add: setConfig_def Let_def split: option.splits)

lemma reportWidth_conns: "conns (fst (reportWidth s c msg)) = conns s"
  by (simp add: reportWidth_def Let_def split: option.splits)

lemma quickApply_conns: "conns (fst (quickApply s c)) = conns s"
  by (simp add: quickApply_def Let_def loop_frame)

lemma on_message_not_hello_conns:
  assumes "on_message s c raw clk = Inr (s', out)" and "\<not> is_hello raw"
  shows "conns s' = conns s"
proof (cases raw)
  case Malformed
  then show ?thesis using assms by auto
next
  case Parsed_null
  then show ?thesis using assms by simp
next
  case Parsed_other
  then show ?thesis using assms by auto
next
  case (Parsed msg)
  then have nh: "m_type msg \<noteq> Str ''hello''" using assms(2) by simp
  show ?thesis
    using assms(1) Parsed nh setConfig_conns [of s c msg] reportWidth_conns [of s c msg]
      quickApply_conns [of s c]
    by (auto simp: updateMarquee_def resetStartAt_def Let_def split: if_splits)
qed

lemma on_message_role:
  assumes "on_message s c raw clk = Inr (s', out)"
  shows "role (conns s' c') =
     (case raw of
        Parsed msg \<Rightarrow> if c' = c \<and> m_type msg = Str ''hello'' then m_role msg else role (conns s c')
      | _ \<Rightarrow> role (conns s c'))"
proof (cases "is_hello raw")
  case True
  then obtain msg where raw: "raw = Parsed msg" and h: "m_type msg = Str ''hello''"
    by (cases raw) auto
  then have "s' = fst (hello s c msg clk)" using assms by auto
  then show ?thesis using raw h hello_role [of s c msg clk c'] by simp
next
  case False
  from on_message_not_hello_conns [OF assms False] show ?thesis using False
    by (cases raw) auto
qed

lemma on_close_role: "role (conns (fst (on_close s c)) c') = role (conns s c')"
  by (simp add: on_close_def Let_def)

lemma step_role:
  assumes "step s e = Some (s', out)" and "\<not> hello_on c e"
  shows "role (conns s' c) = (if e = Connection c then Null else role (conns s c))"
proof (cases e)
  case (Connection c')
  then show ?thesis using assms by (auto simp: on_connection_def split: if_splits)
next
  case (Message c' raw clk)
  then have m: "on_message s c' raw clk = Inr (s', out)"
    using assms(1) by (auto split: if_splits sum.splits)
  from on_message_role [OF m, of c] show ?thesis using Message assms(2)
    by (cases raw) auto
next
  case (Close c')
  then have "s' = fst (on_close s c')" using assms(1) by (auto split: if_splits)
  then show ?thesis using Close on_close_role [of s c' c] by simp
next
  case (Tick now)
  then show ?thesis using assms by auto
qed

lemma run_no_role:
  assumes "run s evs = Some (s', out)" and "list_all (\<lambda>e. \<not> hello_on c e) evs"
    and "no_role (role (conns s c))"
  shows "no_role (role (conns s' c))"
  using assms
proof (induction evs arbitrary: s out)
  case Nil
  then show ?case by simp
next
  case (Cons e evs)
  from Cons.prems(1) obtain s1 out1 out2 where
    st: "step s e = Some (s1, out1)" and rest: "run s1 evs = Some (s', out2)"
    by (auto split: option.splits prod.splits)
  have "\<not> hello_on c e" using Cons.prems(2) by simp
  from step_role [OF st this] have "no_role (role (conns s1 c))"
    using Cons.prems(3) by (auto simp: no_role_def)
  moreover have "list_all (\<lambda>e. \<not> hello_on c e) evs" using Cons.prems(2) by simp
  ultimately show ?case using Cons.IH rest by blast
qed

lemma existing_readyState:
  "readyState (conns (case opt of
       Some existing \<Rightarrow> if is_open t (ws existing) then ws_close t (ws existing) else t
     | None \<Rightarrow> t) c') = CLOSING
   \<or> readyState (conns (case opt of
       Some existing \<Rightarrow> if is_open t (ws existing) then ws_close t (ws existing) else t
     | None \<Rightarrow> t) c') = readyState (conns t c')"
  by (cases opt) (auto simp: ws_close_def)

lemma hello_readyState:
  "readyState (conns (fst (hello s c msg clk)) c') = CLOSING
   \<or> readyState (conns (fst (hello s c msg clk)) c') = readyState (conns s c')"
proof (cases "m_role msg = Str ''player''")
  case True
  define pid where "pid = (if truthy (m_playerId msg) then m_playerId msg
                           else Str (''player-'' @ show_int (clk 0)))"
  define s1 where "s1 = s\<lparr>conns := (conns s)(c := (conns s c)\<lparr>role := m_role msg, playerId := pid\<rparr>)\<rparr>"
  have r: "readyState (conns s1 c') = readyState (conns s c')" by (simp add: s1_def)
  have "conns (fst (hello s c msg clk)) =
        conns (case map_of (players s1) pid of
                 Some existing \<Rightarrow> if is_open s1 (ws existing) then ws_close s1 (ws existing) else s1
               | None \<Rightarrow> s1)"
    using True by (simp add: hello_def Let_def pid_def s1_def split: option.splits)
  then show ?thesis using existing_readyState [where opt = "map_of (players s1) pid" and t = s1 and c' = c'] r by simp
next
  case False
  then show ?thesis by (simp add: hello_def Let_def)
qed

lemma on_message_connected:
  assumes "on_message s c raw clk = Inr (s', out)" and "readyState (conns s c') \<noteq> CONNECTING"
  shows "readyState (conns s' c') \<noteq> CONNECTING"
proof (cases "is_hello raw")
  case True
  then obtain msg where raw: "raw = Parsed msg" and h: "m_type msg = Str ''hello''"
    by (cases raw) auto
  then have "s' = fst (hello s c msg clk)" using assms(1) by auto
  moreover have "readyState (conns (fst (hello s c msg clk)) c') = CLOSING
      \<or> readyState (conns (fst (hello s c msg clk)) c') = readyState (conns s c')"
    by (rule hello_readyState)
  ultimately show ?thesis using assms(2) by auto
next
  case False
  from on_message_not_hello_conns [OF assms(1) False] show ?thesis using assms(2) by simp
qed

lemma step_connected:
  assumes "step s e = Some (s', out)" and "readyState (conns s c) \<noteq> CONNECTING"
  shows "readyState (conns s' c) \<noteq> CONNECTING"
proof (cases e)
  case (Connection c')
  then show ?thesis using assms by (auto simp: on_connection_def split: if_splits)
next
  case (Message c' raw clk)
  then have "on_message s c' raw clk = Inr (s', out)"
    using assms(1) by (auto split: if_splits sum.splits)
  then show ?thesis using assms(2) by (rule on_message_connected)
next
  case (Close c')
  then have "s' = fst (on_close s c')" using assms(1) by (auto split: if_splits)
  then show ?thesis using assms(2) by (simp add: on_close_def Let_def)
next
  case (Tick now)
  then show ?thesis using assms by auto
qed

lemma run_role:
  assumes "run s evs = Some (s', out)" and "list_all (\<lambda>e. \<not> hello_on c e) evs"
    and "readyState (conns s c) \<noteq> CONNECTING"
  shows "role (conns s' c) = role (conns s c) \<and> readyState (conns s' c) \<noteq> CONNECTING"
  using assms
proof (induction evs arbitrary: s out)
  case Nil
  then show ?case by simp
next
  case (Cons e evs)
  from Cons.prems(1) obtain s1 out1 out2 where
    st: "step s e = Some (s1, out1)" and rest: "run s1 evs = Some (s', out2)"
    by (auto split: option.splits prod.splits)
  have nh: "\<not> hello_on c e" using Cons.prems(2) by simp
  have "e \<noteq> Connection c" using st Cons.prems(3) by (auto split: if_splits)
  with step_role [OF st nh] have r: "role (conns s1 c) = role (conns s c)" by simp
  have o: "readyState (conns s1 c) \<noteq> CONNECTING" by (rule step_connected [OF st Cons.prems(3)])
  have l: "list_all (\<lambda>e. \<not> hello_on c e) evs" using Cons.prems(2) by simp
  from Cons.IH [OF rest l o] r show ?case by simp
qed

subsection \<open>The player list and the entries of the registry\<close>

lemma getPlayerList_ids:
  assumes "distinct (map fst (players s))"
  shows "distinct (map item_playerId (getPlayerList s))"
    and "\<forall>it \<in> set (getPlayerList s). \<exists>p. map_of (players s) (item_playerId it) = Some p
            \<and> actualWidth p = item_actualWidth it"
proof -
  have "mset (getPlayerList s) = mset (map to_item (players s))"
    by (simp add: getPlayerList_def)
  then have "mset (map item_playerId (getPlayerList s)) = mset (map item_playerId (map to_item (players s)))"
    by (metis mset_map)
  moreover have "map item_playerId (map to_item (players s)) = map fst (players s)"
    by (simp add: to_item_def)
  ultimately show "distinct (map item_playerId (getPlayerList s))"
    using assms by (metis mset_eq_imp_distinct_iff)
next
  show "\<forall>it \<in> set (getPlayerList s). \<exists>p. map_of (players s) (item_playerId it) = Some p
            \<and> actualWidth p = item_actualWidth it"
  proof
    fix it assume "it \<in> set (getPlayerList s)"
    then obtain kv where kv: "kv \<in> set (players s)" and it: "it = to_item kv"
      by (auto simp: getPlayerList_def)
    then have "map_of (players s) (fst kv) = Some (snd kv)" using assms by simp
    then show "\<exists>p. map_of (players s) (item_playerId it) = Some p \<and> actualWidth p = item_actualWidth it"
      using it by (simp add: to_item_def)
  qed
qed

lemma quickApply_assigns:
  assumes "distinct (map fst (players s))" and "role (conns s c) = Str ''controller''"
    and "i < length (getPlayerList s)"
  shows "\<exists>p. map_of (players s) (item_playerId (getPlayerList s ! i)) = Some p \<and>
           map_of (players (fst (quickApply s c))) (item_playerId (getPlayerList s ! i)) =
             Some (p\<lparr>config := \<lparr>screenCount = Number (Num (int (length (getPlayerList s)))),
                                screenIndex = Number (Num (int i + 1)),
                                offsetPx = Number (offset_at (getPlayerList s) i)\<rparr>\<rparr>)"
  using loop_assigns [OF getPlayerList_ids [OF assms(1)] assms(3), of "length (getPlayerList s)" 0 "Num 0"] assms(2)
  by (simp add: quickApply_def Let_def offset_at_def)

lemma getPlayerList_sorted: "sorted (map item_connectedAt (getPlayerList s))"
  by (simp add: getPlayerList_def)

lemma to_item_fields: "item_fields (to_item kv) = entry_fields kv"
  by (simp add: item_fields_def entry_fields_def to_item_def)

lemma getPlayerList_fields:
  "mset (map item_fields (getPlayerList s)) = mset (map entry_fields (players s))"
proof -
  have "mset (getPlayerList s) = mset (map to_item (players s))"
    by (simp add: getPlayerList_def)
  then have "mset (map item_fields (getPlayerList s)) = mset (map item_fields (map to_item (players s)))"
    by (metis mset_map)
  moreover have "map item_fields (map to_item (players s)) = map entry_fields (players s)"
    by (simp add: to_item_fields)
  ultimately show ?thesis by (simp only:)
qed



lemma wall_d_first_players: "players wall_d_first =
  [(Str ''D'', \<lparr>ws = 4, config = default_config, actualWidth = Some (Num 800), connectedAt = 14\<rparr>),
   (Str ''A'', \<lparr>ws = 1, config = default_config, actualWidth = Some (Num 1920), connectedAt = 11\<rparr>),
   (Str ''B'', \<lparr>ws = 2, config = default_config, actualWidth = Some (Num 1080), connectedAt = 12\<rparr>),
   (Str ''C'', \<lparr>ws = 3, config = default_config, actualWidth = None, connectedAt = 13\<rparr>)]"
  by (simp add: fixture_simps wall_d_first_def four_players_d_first_def)





lemma reportWidth_entry:
  assumes "role (conns s c) = Str ''player''" and "truthy (playerId (conns s c))"
    and "map_of (players s) (playerId (conns s c)) = Some p"
  shows "map_of (players (fst (reportWidth s c msg))) (playerId (conns s c))
     = Some (p\<lparr>actualWidth := (if truthy (m_actualWidth msg) then Some (parseInt (m_actualWidth msg)) else None)\<rparr>)"
  using assms by (simp add: reportWidth_def Let_def AList.update_conv')


lemma spec_offset_Suc:
  assumes "i < length p"
  shows "spec_offset p (Suc i) = spec_offset p i + known_width (item_actualWidth (p ! i))"
  using assms by (simp add: spec_offset_def take_Suc_conv_app_nth)


text \<open>With a role that is neither \<^verbatim>\<open>'player'\<close> nor \<^verbatim>\<open>'controller'\<close>, every frame except
  \<^verbatim>\<open>hello\<close> and the text \<^verbatim>\<open>null\<close> leaves the state as it is and sends nothing.\<close>

lemma unassigned_ignores_messages:
  assumes "no_role (role (conns s c))" and "\<not> is_hello raw" and "raw \<noteq> Parsed_null"
  shows "on_message s c raw clk = Inr (s, [])"
proof (cases raw)
  case Malformed
  then show ?thesis by simp
next
  case Parsed_null
  then show ?thesis using assms(3) by simp
next
  case Parsed_other
  then show ?thesis by simp
next
  case (Parsed msg)
  then have "m_type msg \<noteq> Str ''hello''" using assms(2) by simp
  then show ?thesis using assms(1) Parsed
    by (simp add: no_role_def setConfig_def quickApply_def updateMarquee_def reportWidth_def
        resetStartAt_def)
qed

subsection \<open>The anchor, re-registration and width reports\<close>

text \<open>No event assigns \<^verbatim>\<open>startAt\<close>; a \<^verbatim>\<open>hello\<close> of a player with a registered id leaves
  the socket of the previous entry not open; a \<^verbatim>\<open>reportWidth\<close> notifies exactly when the
  old and the new width are not strictly equal, so that a repeated width that is not
  \<^verbatim>\<open>NaN\<close> is silent.\<close>

lemma on_message_startAt:
  assumes "on_message s c raw clk = Inr (s', out)"
  shows "startAt s' = startAt s"
proof (cases raw)
  case Malformed
  then show ?thesis using assms by auto
next
  case Parsed_null
  then show ?thesis using assms by simp
next
  case Parsed_other
  then show ?thesis using assms by auto
next
  case (Parsed msg)
  have h: "startAt (fst (hello s c msg clk)) = startAt s"
    by (simp add: hello_def Let_def ws_close_def split: option.splits)
  have sc: "startAt (fst (setConfig s c msg)) = startAt s"
    by (simp add: setConfig_def Let_def split: option.splits)
  have q: "startAt (fst (quickApply s c)) = startAt s"
    by (simp add: quickApply_def Let_def loop_frame)
  have r: "startAt (fst (reportWidth s c msg)) = startAt s"
    by (simp add: reportWidth_def Let_def split: option.splits)
  show ?thesis
    using assms Parsed h sc q r
    by (auto simp: updateMarquee_def resetStartAt_def Let_def split: if_splits)
qed

lemma step_startAt:
  assumes "step s e = Some (s', out)"
  shows "startAt s' = startAt s"
proof (cases e)
  case (Connection c)
  then show ?thesis using assms by (auto simp: on_connection_def split: if_splits)
next
  case (Message c raw clk)
  then have "on_message s c raw clk = Inr (s', out)"
    using assms by (auto split: if_splits sum.splits)
  then show ?thesis by (rule on_message_startAt)
next
  case (Close c)
  then have "s' = fst (on_close s c)" using assms by (auto split: if_splits)
  then show ?thesis by (simp add: on_close_def Let_def)
next
  case (Tick now)
  then show ?thesis using assms by auto
qed

lemma run_startAt:
  "run s evs = Some (s', out) \<Longrightarrow> startAt s' = startAt s"
proof (induction evs arbitrary: s out)
  case Nil
  then show ?case by simp
next
  case (Cons e evs)
  from Cons.prems obtain s1 out1 out2 where
    st: "step s e = Some (s1, out1)" and rest: "run s1 evs = Some (s', out2)"
    by (auto split: option.splits prod.splits)
  from Cons.IH [OF rest] step_startAt [OF st] show ?case by simp
qed

lemma hello_closes_existing:
  assumes "m_role msg = Str ''player''" and "truthy (m_playerId msg)"
    and "map_of (players s) (m_playerId msg) = Some existing"
  shows "readyState (conns (fst (hello s c msg clk)) (ws existing)) \<noteq> OPEN"
  using assms by (simp add: hello_def Let_def ws_close_def is_open_def)

lemma reportWidth_repeat_silent:
  assumes "role (conns s c) = Str ''player''" and "truthy (playerId (conns s c))"
    and "map_of (players s) (playerId (conns s c)) = Some p"
    and "truthy (m_actualWidth msg) \<longrightarrow> parseInt (m_actualWidth msg) \<noteq> NaN"
  shows "snd (reportWidth (fst (reportWidth s c msg)) c msg) = []"
proof -
  have c: "conns (fst (reportWidth s c msg)) = conns s" by (rule reportWidth_conns)
  note e = reportWidth_entry [OF assms(1,2,3), of msg]
  show ?thesis
    using assms(1,2,4) e c
    by (simp add: reportWidth_def [of "fst (reportWidth s c msg)"] Let_def strict_eq_def)
qed

lemma reportWidth_notifies_iff:
  assumes "role (conns s c) = Str ''player''" and "truthy (playerId (conns s c))"
    and "map_of (players s) (playerId (conns s c)) = Some p"
  shows "snd (reportWidth s c msg) =
     (if strict_eq (actualWidth p)
           (if truthy (m_actualWidth msg) then Some (parseInt (m_actualWidth msg)) else None)
      then [] else notifyPlayersUpdate (fst (reportWidth s c msg)))"
  using assms by (simp add: reportWidth_def Let_def)

section \<open>The claims\<close>

text \<open>
  C1, as amended.  The player list is in ascending order of \<^verbatim>\<open>connectedAt\<close> and holds the
  registered players.  A \<^verbatim>\<open>quickApply\<close> command from a controller gives the player at
  position \<open>i\<close> of that list the layout with \<^verbatim>\<open>screenCount\<close> the number of registered
  players, \<^verbatim>\<open>screenIndex\<close> \<open>i + 1\<close> and \<^verbatim>\<open>offsetPx\<close> the sum, added up in double precision in
  the order of the list, of the known widths of the players before it; a width that is
  \<^verbatim>\<open>null\<close>, \<^verbatim>\<open>NaN\<close> or 0 adds nothing.  That sum is the exact sum when the widths are finite
  and every running sum stays within \<^verbatim>\<open>Number.MAX_SAFE_INTEGER\<close>.
\<close>

theorem quickApply_layouts:
  assumes "distinct (map fst (players s))" and "role (conns s c) = Str ''controller''"
    and "m_type msg = Str ''quickApply''" and "i < length (getPlayerList s)"
  shows "on_message s c (Parsed msg) clk = Inr (quickApply s c)
     \<and> sorted (map item_connectedAt (getPlayerList s))
     \<and> mset (map item_fields (getPlayerList s)) = mset (map entry_fields (players s))
     \<and> map_option config (map_of (players (fst (quickApply s c))) (item_playerId (getPlayerList s ! i)))
         = Some \<lparr>screenCount = Number (Num (int (length (players s)))),
                 screenIndex = Number (Num (int i + 1)),
                 offsetPx = Number (offset_at (getPlayerList s) i)\<rparr>
     \<and> (safe_sums (map item_actualWidth (take i (getPlayerList s))) 0
          \<longrightarrow> offset_at (getPlayerList s) i = Num (spec_offset (getPlayerList s) i))"
proof -
  have a: "on_message s c (Parsed msg) clk = Inr (quickApply s c)" using assms(3) by simp
  have b: "sorted (map item_connectedAt (getPlayerList s))" by (rule getPlayerList_sorted)
  have c: "mset (map item_fields (getPlayerList s)) = mset (map entry_fields (players s))"
    by (rule getPlayerList_fields)
  have n: "length (getPlayerList s) = length (players s)" by (simp add: getPlayerList_def)
  have d: "map_option config (map_of (players (fst (quickApply s c))) (item_playerId (getPlayerList s ! i)))
         = Some \<lparr>screenCount = Number (Num (int (length (players s)))),
                 screenIndex = Number (Num (int i + 1)),
                 offsetPx = Number (offset_at (getPlayerList s) i)\<rparr>"
    using quickApply_assigns [OF assms(1,2,4)] n by auto
  have e: "offset_at (getPlayerList s) i = Num (spec_offset (getPlayerList s) i)"
    if "safe_sums (map item_actualWidth (take i (getPlayerList s))) 0"
    using that by (rule offset_at_safe)
  from a b c d e show ?thesis by blast
qed

text \<open>
  The instance of the specification: \<^verbatim>\<open>A\<close> (1920), \<^verbatim>\<open>B\<close> (1080), \<^verbatim>\<open>C\<close> (unknown) and
  \<^verbatim>\<open>D\<close> (800), connected in this order, receive \<open>{4,1,0}\<close>, \<open>{4,2,1920}\<close>, \<open>{4,3,3000}\<close>
  and \<open>{4,4,3000}\<close>.  \<^verbatim>\<open>D\<close> had registered before and holds the first position of the
  \<^verbatim>\<open>Map\<close>; its place in the list is the one of its latest connect time.
\<close>

theorem quickApply_layouts_witness:
  "map fst (players wall_d_first) = [Str ''D'', Str ''A'', Str ''B'', Str ''C'']
   \<and> role (conns wall_d_first 0) = Str ''controller''
   \<and> listed wall_d_first = [Str ''A'', Str ''B'', Str ''C'', Str ''D'']
   \<and> map item_connectedAt (getPlayerList wall_d_first) = [11, 12, 13, 14]
   \<and> safe_sums (map item_actualWidth (take 3 (getPlayerList wall_d_first))) 0
   \<and> map_option config (map_of (players (fst (quickApply wall_d_first 0))) (Str ''A''))
       = Some \<lparr>screenCount = Number (Num 4), screenIndex = Number (Num 1), offsetPx = Number (Num 0)\<rparr>
   \<and> map_option config (map_of (players (fst (quickApply wall_d_first 0))) (Str ''B''))
       = Some \<lparr>screenCount = Number (Num 4), screenIndex = Number (Num 2), offsetPx = Number (Num 1920)\<rparr>
   \<and> map_option config (map_of (players (fst (quickApply wall_d_first 0))) (Str ''C''))
       = Some \<lparr>screenCount = Number (Num 4), screenIndex = Number (Num 3), offsetPx = Number (Num 3000)\<rparr>
   \<and> map_option config (map_of (players (fst (quickApply wall_d_first 0))) (Str ''D''))
       = Some \<lparr>screenCount = Number (Num 4), screenIndex = Number (Num 4), offsetPx = Number (Num 3000)\<rparr>"
proof -
  note p = wall_d_first_players
  have d: "distinct (map fst (players wall_d_first))" by (simp add: p)
  have r: "role (conns wall_d_first 0) = Str ''controller''"
    by (simp add: fixture_simps wall_d_first_def four_players_d_first_def)
  have t: "m_type (no_fields\<lparr>m_type := Str ''quickApply''\<rparr>) = Str ''quickApply''" by simp
  have l: "getPlayerList wall_d_first =
     [to_item (Str ''A'', \<lparr>ws = 1, config = default_config, actualWidth = Some (Num 1920), connectedAt = 11\<rparr>),
      to_item (Str ''B'', \<lparr>ws = 2, config = default_config, actualWidth = Some (Num 1080), connectedAt = 12\<rparr>),
      to_item (Str ''C'', \<lparr>ws = 3, config = default_config, actualWidth = None, connectedAt = 13\<rparr>),
      to_item (Str ''D'', \<lparr>ws = 4, config = default_config, actualWidth = Some (Num 800), connectedAt = 14\<rparr>)]"
    by (simp add: getPlayerList_def p to_item_def)
  have i: "0 < length (getPlayerList wall_d_first)" "1 < length (getPlayerList wall_d_first)"
    "2 < length (getPlayerList wall_d_first)" "3 < length (getPlayerList wall_d_first)"
    by (simp_all add: l)
  have s: "safe_sums (map item_actualWidth (take 0 (getPlayerList wall_d_first))) 0"
    "safe_sums (map item_actualWidth (take 1 (getPlayerList wall_d_first))) 0"
    "safe_sums (map item_actualWidth (take 2 (getPlayerList wall_d_first))) 0"
    "safe_sums (map item_actualWidth (take 3 (getPlayerList wall_d_first))) 0"
    by (simp_all add: l to_item_def known_width_def max_safe_def)
  have o: "spec_offset (getPlayerList wall_d_first) 0 = 0"
    "spec_offset (getPlayerList wall_d_first) 1 = 1920"
    "spec_offset (getPlayerList wall_d_first) 2 = 3000"
    "spec_offset (getPlayerList wall_d_first) 3 = 3000"
    by (simp_all add: l to_item_def spec_offset_def known_width_def)
  have a: "map_option config (map_of (players (fst (quickApply wall_d_first 0))) (Str ''A''))
       = Some \<lparr>screenCount = Number (Num 4), screenIndex = Number (Num 1), offsetPx = Number (Num 0)\<rparr>"
  proof -
    have "map_option config (map_of (players (fst (quickApply wall_d_first 0)))
            (item_playerId (getPlayerList wall_d_first ! 0)))
         = Some \<lparr>screenCount = Number (Num (int (length (players wall_d_first)))),
                 screenIndex = Number (Num (int 0 + 1)),
                 offsetPx = Number (Num (spec_offset (getPlayerList wall_d_first) 0))\<rparr>"
      using quickApply_layouts [OF d r t i(1), of "at 20"] s(1) by auto
    then show ?thesis unfolding o(1) by (simp add: l p to_item_def)
  qed
  have b: "map_option config (map_of (players (fst (quickApply wall_d_first 0))) (Str ''B''))
       = Some \<lparr>screenCount = Number (Num 4), screenIndex = Number (Num 2), offsetPx = Number (Num 1920)\<rparr>"
  proof -
    have "map_option config (map_of (players (fst (quickApply wall_d_first 0)))
            (item_playerId (getPlayerList wall_d_first ! 1)))
         = Some \<lparr>screenCount = Number (Num (int (length (players wall_d_first)))),
                 screenIndex = Number (Num (int 1 + 1)),
                 offsetPx = Number (Num (spec_offset (getPlayerList wall_d_first) 1))\<rparr>"
      using quickApply_layouts [OF d r t i(2), of "at 20"] s(2) by auto
    then show ?thesis unfolding o(2) by (simp add: l p to_item_def)
  qed
  have c: "map_option config (map_of (players (fst (quickApply wall_d_first 0))) (Str ''C''))
       = Some \<lparr>screenCount = Number (Num 4), screenIndex = Number (Num 3), offsetPx = Number (Num 3000)\<rparr>"
  proof -
    have "map_option config (map_of (players (fst (quickApply wall_d_first 0)))
            (item_playerId (getPlayerList wall_d_first ! 2)))
         = Some \<lparr>screenCount = Number (Num (int (length (players wall_d_first)))),
                 screenIndex = Number (Num (int 2 + 1)),
                 offsetPx = Number (Num (spec_offset (getPlayerList wall_d_first) 2))\<rparr>"
      using quickApply_layouts [OF d r t i(3), of "at 20"] s(3) by auto
    then show ?thesis unfolding o(3) by (simp add: l p to_item_def)
  qed
  have e: "map_option config (map_of (players (fst (quickApply wall_d_first 0))) (Str ''D''))
       = Some \<lparr>screenCount = Number (Num 4), screenIndex = Number (Num 4), offsetPx = Number (Num 3000)\<rparr>"
  proof -
    have "map_option config (map_of (players (fst (quickApply wall_d_first 0)))
            (item_playerId (getPlayerList wall_d_first ! 3)))
         = Some \<lparr>screenCount = Number (Num (int (length (players wall_d_first)))),
                 screenIndex = Number (Num (int 3 + 1)),
                 offsetPx = Number (Num (spec_offset (getPlayerList wall_d_first) 3))\<rparr>"
      using quickApply_layouts [OF d r t i(4), of "at 20"] s(4) by auto
    then show ?thesis unfolding o(4) by (simp add: l p to_item_def)
  qed
  have m: "map item_connectedAt (getPlayerList wall_d_first) = [11, 12, 13, 14]"
    by (simp add: l to_item_def)
  show ?thesis using a b c e r s(4) m by (simp add: p listed_def l to_item_def)
qed

text \<open>
  C1 as stated, with the exact sum for every list, fails: with the widths \<open>2^53\<close>, 1, 1
  and 1 the exact sums before \<^verbatim>\<open>C\<close> and \<^verbatim>\<open>D\<close> are \<open>2^53 + 1\<close> and \<open>2^53 + 2\<close>, and the code
  assigns \<open>2^53\<close> to both, since \<open>2^53 + 1\<close> is not a double.
\<close>

theorem quickApply_large_widths_rounded:
  "observe listed 0 large_widths = Some [Str ''A'', Str ''B'', Str ''C'', Str ''D'']
   \<and> observe (claimed_offset 2) 0 large_widths = Some 9007199254740993
   \<and> observe (claimed_offset 3) 0 large_widths = Some 9007199254740994
   \<and> observe (offset_of (Str ''C'')) 0 (large_widths @ [Message 0 (command ''quickApply'') (at 20)])
       = Some (Some (Number (Num 9007199254740992)))
   \<and> observe (offset_of (Str ''D'')) 0 (large_widths @ [Message 0 (command ''quickApply'') (at 20)])
       = Some (Some (Number (Num 9007199254740992)))"
  by (simp add: eval_simps large_widths_def listed_def claimed_offset_def offset_of_def
      spec_offset_def known_width_def bitlen.simps)

text \<open>
  C2.  The property: a \<^verbatim>\<open>resetStartAt\<close> command from a controller replaces the anchor
  \<^verbatim>\<open>startAt\<close> by the current time \<open>t\<close>, sends \<open>{reset, startAt: t, now: t}\<close> to every player
  and controller, and every later tick and \<^verbatim>\<open>init\<close> reports the new anchor.

  The code sends the reset messages, but \<^verbatim>\<open>startAt\<close> is a \<^verbatim>\<open>const\<close> that no handler assigns
  (\<open>run_startAt\<close>): with the server started at 1000 and the reset at 2000, the next tick
  and the next \<^verbatim>\<open>init\<close> still report \<^verbatim>\<open>startAt\<close> 1000.
\<close>

theorem resetStartAt_keeps_old_anchor:
  "sent_after 1000 one_controller_one_player [Message 0 (command ''resetStartAt'') (at 2000)]
      = Some [(1, ResetMsg 2000 2000), (0, ResetMsg 2000 2000)]
   \<and> observe startAt 1000 (one_controller_one_player @ [Message 0 (command ''resetStartAt'') (at 2000)])
      = Some 1000
   \<and> sent_after 1000 (one_controller_one_player @ [Message 0 (command ''resetStartAt'') (at 2000)])
        [Tick 2005]
      = Some [(1, TickMsg 2005 1000), (0, TickMsg 2005 1000)]
   \<and> sent_after 1000 (one_controller_one_player @ [Message 0 (command ''resetStartAt'') (at 2000),
                                                     Connection 2])
        [Message 2 hello_controller (at 2010)]
      = Some [(2, Init 1000 2010 None None),
              (2, PlayersMsg [\<lparr>item_playerId = Str ''A'', item_config = default_config,
                                item_actualWidth = Some (Num 1920), item_connectedAt = 11\<rparr>])]"
  by (simp add: eval_simps)

text \<open>
  C3.  The property: the registry holds at most one entry for a \<^verbatim>\<open>playerId\<close>; a \<^verbatim>\<open>hello\<close>
  of a player whose id is registered closes the connection of the existing entry, installs
  a fresh entry with the current time as \<^verbatim>\<open>connectedAt\<close>, and exactly one entry for the id
  exists afterwards.

  The keys of the registry are distinct in every reachable state (\<open>reachable_registry_ok\<close>),
  and the \<^verbatim>\<open>hello\<close> closes the old socket and installs the fresh entry
  (\<open>hello_closes_existing\<close>, \<open>hello_player_entry\<close>).  The entry does not last: player \<^verbatim>\<open>A\<close>
  registers on connection 1 and then on connection 2; after the second \<^verbatim>\<open>hello\<close> there is
  one entry for \<^verbatim>\<open>A\<close>, owned by connection 2, and connection 1 is closing.  When the close
  event of connection 1 arrives, its handler deletes the entry by id, and the registry is
  empty although connection 2 is open and registered as \<^verbatim>\<open>A\<close>.
\<close>

theorem reconnect_entry_removed_by_old_close:
  "observe players 0 reconnect
     = Some [(Str ''A'', \<lparr>ws = 2, config = default_config, actualWidth = None, connectedAt = 12\<rparr>)]
   \<and> observe (conn_of 1) 0 reconnect
     = Some \<lparr>role = Str ''player'', playerId = Str ''A'', readyState = CLOSING\<rparr>
   \<and> observe players 0 (reconnect @ [Close 1]) = Some []
   \<and> observe (conn_of 2) 0 (reconnect @ [Close 1])
     = Some \<lparr>role = Str ''player'', playerId = Str ''A'', readyState = OPEN\<rparr>"
  by (simp add: eval_simps)

text \<open>
  C4.  A \<^verbatim>\<open>setConfig\<close> command from a controller that names a registered player replaces
  its layout by the merge: each of \<^verbatim>\<open>screenCount\<close>, \<^verbatim>\<open>screenIndex\<close>, \<^verbatim>\<open>offsetPx\<close> is the
  value of the message unless that is \<^verbatim>\<open>undefined\<close> or \<^verbatim>\<open>null\<close>, and then the previous
  value (for \<^verbatim>\<open>offsetPx\<close>, 0 when the previous value is missing as well).  The other fields
  of the player, the other players and the order of the registry are unchanged.  A
  command that names an id that is not registered changes nothing and sends nothing.
\<close>

theorem setConfig_merges_supplied_fields:
  assumes "reachable s" and "role (conns s c) = Str ''controller''"
    and "m_type msg = Str ''setConfig''"
  shows "on_message s c (Parsed msg) clk = Inr (setConfig s c msg)
     \<and> (map_of (players s) (m_playerId msg) = Some p \<longrightarrow>
          fst (setConfig s c msg) =
            s\<lparr>players := AList.update (m_playerId msg)
                 (p\<lparr>config :=
                    \<lparr>screenCount = (if nullish (m_screenCount msg) then screenCount (config p)
                                     else m_screenCount msg),
                     screenIndex = (if nullish (m_screenIndex msg) then screenIndex (config p)
                                     else m_screenIndex msg),
                     offsetPx = (if nullish (m_offsetPx msg)
                                 then (if nullish (offsetPx (config p)) then Number (Num 0)
                                       else offsetPx (config p))
                                 else m_offsetPx msg)\<rparr>\<rparr>)
                 (players s)\<rparr>
          \<and> map fst (players (fst (setConfig s c msg))) = map fst (players s)
          \<and> (k \<noteq> m_playerId msg \<longrightarrow>
               map_of (players (fst (setConfig s c msg))) k = map_of (players s) k))
     \<and> (map_of (players s) (m_playerId msg) = None \<longrightarrow> setConfig s c msg = (s, []))"
proof -
  have a: "on_message s c (Parsed msg) clk = Inr (setConfig s c msg)"
    using assms(3) by simp
  have b: "setConfig s c msg = (s, [])" if "map_of (players s) (m_playerId msg) = None"
    using that by (simp add: setConfig_def)
  have c: "fst (setConfig s c msg) =
            s\<lparr>players := AList.update (m_playerId msg)
                 (p\<lparr>config :=
                    \<lparr>screenCount = (if nullish (m_screenCount msg) then screenCount (config p)
                                     else m_screenCount msg),
                     screenIndex = (if nullish (m_screenIndex msg) then screenIndex (config p)
                                     else m_screenIndex msg),
                     offsetPx = (if nullish (m_offsetPx msg)
                                 then (if nullish (offsetPx (config p)) then Number (Num 0)
                                       else offsetPx (config p))
                                 else m_offsetPx msg)\<rparr>\<rparr>)
                 (players s)\<rparr>"
    if "map_of (players s) (m_playerId msg) = Some p"
    using that assms(2) registered_truthy [OF assms(1) that]
    by (simp add: setConfig_def Let_def coalesce_def)
  have d: "map_of (players (fst (setConfig s c msg))) k = map_of (players s) k"
    if "map_of (players s) (m_playerId msg) = Some p" "k \<noteq> m_playerId msg"
    using c [OF that(1)] that(2) by (simp add: AList.update_conv')
  show ?thesis using a b c d setConfig_keys [of s c msg] by blast
qed

theorem setConfig_merges_supplied_fields_witness:
  "reachable lobby \<and> role (conns lobby 0) = Str ''controller''
   \<and> map_option config (map_of (players lobby) (Str ''A'')) = Some default_config
   \<and> map_option config (map_of (players (fst (setConfig lobby 0 (set_index_only ''A'')))) (Str ''A''))
       = Some \<lparr>screenCount = Number (Num 2), screenIndex = Number (Num 3), offsetPx = Number (Num 0)\<rparr>
   \<and> map_of (players lobby) (Str ''Z'') = None
   \<and> on_message lobby 0 (Parsed (set_index_only ''Z'')) (at 20) = Inr (lobby, [])"
proof -
  have r: "reachable lobby"
    unfolding lobby_def by (rule reachable_after) (rule reachable_initial)
  have c: "role (conns lobby 0) = Str ''controller''" by (simp add: fixture_simps)
  have t: "m_type (set_index_only pid) = Str ''setConfig''" for pid by (simp add: set_index_only_def)
  have p: "players lobby = [(Str ''A'', \<lparr>ws = 1, config = default_config,
                               actualWidth = Some (Num 1920), connectedAt = 11\<rparr>)]"
    by (simp add: fixture_simps)
  show ?thesis
    using setConfig_merges_supplied_fields [OF r c t, of "''A''" "at 20"
        "\<lparr>ws = 1, config = default_config, actualWidth = Some (Num 1920), connectedAt = 11\<rparr>" "Str ''B''"]
      setConfig_merges_supplied_fields [OF r c t, of "''Z''" "at 20"
        "\<lparr>ws = 1, config = default_config, actualWidth = Some (Num 1920), connectedAt = 11\<rparr>" "Str ''B''"]
      r c
    by (simp add: p set_index_only_def no_fields_def default_config_def)
qed

text \<open>
  C5.  The property: on a connection whose role is unset, every inbound message other than
  \<^verbatim>\<open>hello\<close> changes nothing and sends nothing.

  This holds for text that does not parse, for parsed numbers, strings, booleans and
  arrays, and for every parsed object whose \<^verbatim>\<open>type\<close> is not \<^verbatim>\<open>hello\<close>
  (\<open>unassigned_ignores_messages\<close>).  The frame \<^verbatim>\<open>null\<close> is the exception: \<^verbatim>\<open>JSON.parse\<close>
  accepts it inside the \<^verbatim>\<open>try\<close>, and \<^verbatim>\<open>switch (msg.type)\<close> then throws outside of it.  Sent on
  the fresh connection 2 while a controller and a player are connected, it ends the run:
  there is no state after it.
\<close>

theorem null_frame_throws_before_hello:
  "observe (conn_of 2) 0 (one_controller_one_player @ [Connection 2])
     = Some \<lparr>role = Null, playerId = Null, readyState = OPEN\<rparr>
   \<and> on_message lobby_plus 2 Parsed_null (at 20) = Inl TypeError
   \<and> observe players 0 (one_controller_one_player @ [Connection 2, Message 2 Parsed_null (at 20)])
     = None
   \<and> observe players 0 (one_controller_one_player @ [Connection 2, Message 2 Parsed_other (at 20)])
     = Some [(Str ''A'', \<lparr>ws = 1, config = default_config, actualWidth = Some (Num 1920),
                          connectedAt = 11\<rparr>)]"
  by (simp add: eval_simps lobby_plus_def)

text \<open>
  C6, as amended.  The role of a connection stays what it is through every run of events
  in which no \<^verbatim>\<open>hello\<close> message arrives on that connection, whatever else arrives on it or
  on other connections; and every \<^verbatim>\<open>hello\<close> on it, the first or a later one, sets the
  role to the \<^verbatim>\<open>role\<close> field of the message.
\<close>

theorem role_changes_only_on_hello:
  assumes "run s evs = Some (s', out)" and "readyState (conns s c) \<noteq> CONNECTING"
  shows "(list_all (\<lambda>e. \<not> hello_on c e) evs \<longrightarrow> role (conns s' c) = role (conns s c))
       \<and> (step s' (Message c (Parsed msg) clk) = Some (s'', out') \<and> m_type msg = Str ''hello''
            \<longrightarrow> role (conns s'' c) = m_role msg)"
proof -
  have a: "role (conns s' c) = role (conns s c)" if "list_all (\<lambda>e. \<not> hello_on c e) evs"
    using run_role [OF assms(1) that assms(2)] by simp
  have b: "role (conns s'' c) = m_role msg"
    if "step s' (Message c (Parsed msg) clk) = Some (s'', out')" "m_type msg = Str ''hello''"
  proof -
    have "on_message s' c (Parsed msg) clk = Inr (s'', out')"
      using that(1) by (auto split: if_splits sum.splits)
    from on_message_role [OF this, of c] show ?thesis using that(2) by simp
  qed
  from a b show ?thesis by blast
qed

theorem role_changes_only_on_hello_witness:
  "readyState (conns lobby 1) = OPEN \<and> role (conns lobby 1) = Str ''player''
   \<and> role (conns (after lobby busy) 1) = Str ''player''
   \<and> role (conns (after lobby (busy @ [Message 1 hello_controller (at 16)])) 1) = Str ''controller''"
proof -
  have o: "readyState (conns lobby 1) \<noteq> CONNECTING" by (simp add: fixture_simps)
  have r: "readyState (conns lobby 1) = OPEN \<and> role (conns lobby 1) = Str ''player''"
    by (simp add: fixture_simps)
  have n: "list_all (\<lambda>e. \<not> hello_on 1 e) busy"
    by (simp add: busy_def report_width_def command_def)
  have "\<exists>out. run lobby busy = Some (after lobby busy, out)"
    by (simp add: fixture_simps busy_def)
  then obtain out where ru: "run lobby busy = Some (after lobby busy, out)" ..
  have st: "step (after lobby busy) (Message 1 hello_controller (at 16))
              = Some (after lobby (busy @ [Message 1 hello_controller (at 16)]),
                      snd (hello (after lobby busy) 1
                             (no_fields\<lparr>m_type := Str ''hello'', m_role := Str ''controller''\<rparr>) (at 16)))"
    by (simp add: fixture_simps busy_def)
  show ?thesis
    using role_changes_only_on_hello [OF ru o,
        of "no_fields\<lparr>m_type := Str ''hello'', m_role := Str ''controller''\<rparr>" "at 16"
           "after lobby (busy @ [Message 1 hello_controller (at 16)])"
           "snd (hello (after lobby busy) 1
                             (no_fields\<lparr>m_type := Str ''hello'', m_role := Str ''controller''\<rparr>) (at 16))"]
      n r st
    by (simp add: hello_controller_def)
qed

text \<open>
  C6 as stated fails: connection 1 is a player after its first \<^verbatim>\<open>hello\<close> and a controller
  after its second.
\<close>

theorem later_hello_changes_role:
  "observe (conn_of 1) 0 one_controller_one_player
     = Some \<lparr>role = Str ''player'', playerId = Str ''A'', readyState = OPEN\<rparr>
   \<and> observe (conn_of 1) 0 (one_controller_one_player @ [Message 1 hello_controller (at 12)])
     = Some \<lparr>role = Str ''controller'', playerId = Str ''A'', readyState = OPEN\<rparr>"
  by (simp add: eval_simps)




text \<open>
  C8.  The property: a \<^verbatim>\<open>reportWidth\<close> of a registered player stores the width and notifies
  the controllers exactly when the new width differs from the previous one, so that two
  consecutive messages with the same width notify at most once.

  The code notifies exactly when the old and the new width are not strictly equal
  (\<open>reportWidth_notifies_iff\<close>), and a repeated width that is falsy or parses to a number
  is silent (\<open>reportWidth_repeat_silent\<close>).  Two consecutive messages with the same width
  \<^verbatim>\<open>"abc"\<close> notify the controller twice: \<^verbatim>\<open>parseInt\<close> gives \<^verbatim>\<open>NaN\<close> both times, and
  \<^verbatim>\<open>NaN !== NaN\<close> holds.
\<close>

theorem reportWidth_unparsable_notifies_twice:
  "sent_after 0 one_controller_one_player [Message 1 (report_width (Str ''abc'')) (at 30)]
      = Some [(0, PlayersMsg [\<lparr>item_playerId = Str ''A'', item_config = default_config,
                 item_actualWidth = Some NaN, item_connectedAt = 11\<rparr>])]
   \<and> sent_after 0 (one_controller_one_player @ [Message 1 (report_width (Str ''abc'')) (at 30)])
        [Message 1 (report_width (Str ''abc'')) (at 31)]
      = Some [(0, PlayersMsg [\<lparr>item_playerId = Str ''A'', item_config = default_config,
                 item_actualWidth = Some NaN, item_connectedAt = 11\<rparr>])]"
  by (simp add: eval_simps)



text \<open>
  C10.  A \<^verbatim>\<open>hello\<close> whose role is neither \<^verbatim>\<open>'player'\<close> nor \<^verbatim>\<open>'controller'\<close> sends nothing and
  leaves the registry, the controller set and the anchor as they are; and when the
  connection closes later, with no other \<^verbatim>\<open>hello\<close> on it in between, the close handler
  sends nothing and leaves the registry and the controller set as they are.
\<close>

theorem hello_unknown_role:
  assumes "m_type msg = Str ''hello''" and "no_role (m_role msg)"
  shows "on_message s c (Parsed msg) clk = Inr (hello s c msg clk)
     \<and> snd (hello s c msg clk) = []
     \<and> players (fst (hello s c msg clk)) = players s
     \<and> controllers (fst (hello s c msg clk)) = controllers s
     \<and> startAt (fst (hello s c msg clk)) = startAt s
     \<and> (run (fst (hello s c msg clk)) evs = Some (s', out) \<and> list_all (\<lambda>e. \<not> hello_on c e) evs
          \<longrightarrow> snd (on_close s' c) = []
            \<and> players (fst (on_close s' c)) = players s'
            \<and> controllers (fst (on_close s' c)) = controllers s'
            \<and> startAt (fst (on_close s' c)) = startAt s')"
proof -
  have h: "hello s c msg clk = (s\<lparr>conns := (conns s)(c := (conns s c)\<lparr>role := m_role msg\<rparr>)\<rparr>, [])"
    using assms(2) by (simp add: hello_def no_role_def)
  have later: "snd (on_close s' c) = [] \<and> players (fst (on_close s' c)) = players s'
            \<and> controllers (fst (on_close s' c)) = controllers s'
            \<and> startAt (fst (on_close s' c)) = startAt s'"
    if r: "run (fst (hello s c msg clk)) evs = Some (s', out)"
      and l: "list_all (\<lambda>e. \<not> hello_on c e) evs"
  proof -
    have "no_role (role (conns (fst (hello s c msg clk)) c))"
      using assms(2) by (simp add: h)
    from run_no_role [OF r l this] show ?thesis
      by (simp add: on_close_def no_role_def)
  qed
  show ?thesis using assms(1) h later by simp
qed

theorem hello_unknown_role_witness:
  "snd (hello lobby_plus 2 hello_viewer (at 20)) = []
   \<and> players (fst (hello lobby_plus 2 hello_viewer (at 20))) = players lobby_plus
   \<and> controllers (fst (hello lobby_plus 2 hello_viewer (at 20))) = controllers lobby_plus
   \<and> startAt (fst (hello lobby_plus 2 hello_viewer (at 20))) = startAt lobby_plus
   \<and> role (conns (fst (hello lobby_plus 2 hello_viewer (at 20))) 2) = Str ''viewer''
   \<and> snd (on_close (after (fst (hello lobby_plus 2 hello_viewer (at 20)))
                      [Tick 30, Message 2 (report_width (Number (Num 5))) (at 31)]) 2) = []
   \<and> players (fst (on_close (after (fst (hello lobby_plus 2 hello_viewer (at 20)))
                      [Tick 30, Message 2 (report_width (Number (Num 5))) (at 31)]) 2))
       = players lobby_plus"
proof -
  have t: "m_type hello_viewer = Str ''hello''" by (simp add: hello_viewer_def)
  have n: "no_role (m_role hello_viewer)" by (simp add: hello_viewer_def no_role_def)
  have l: "list_all (\<lambda>e. \<not> hello_on 2 e) [Tick 30, Message 2 (report_width (Number (Num 5))) (at 31)]"
    by (simp add: report_width_def)
  have r: "run (fst (hello lobby_plus 2 hello_viewer (at 20)))
             [Tick 30, Message 2 (report_width (Number (Num 5))) (at 31)]
           = Some (after (fst (hello lobby_plus 2 hello_viewer (at 20)))
                      [Tick 30, Message 2 (report_width (Number (Num 5))) (at 31)],
                   [(1, TickMsg 30 0), (0, TickMsg 30 0)])"
    by (simp add: fixture_simps lobby_plus_def hello_viewer_def)
  have p: "players (after (fst (hello lobby_plus 2 hello_viewer (at 20)))
                      [Tick 30, Message 2 (report_width (Number (Num 5))) (at 31)]) = players lobby_plus"
    by (simp add: fixture_simps lobby_plus_def hello_viewer_def)
  show ?thesis
    using hello_unknown_role [OF t n, of lobby_plus 2 "at 20"
        "[Tick 30, Message 2 (report_width (Number (Num 5))) (at 31)]"
        "after (fst (hello lobby_plus 2 hello_viewer (at 20)))
                      [Tick 30, Message 2 (report_width (Number (Num 5))) (at 31)]"
        "[(1, TickMsg 30 0), (0, TickMsg 30 0)]"] l r p
    by (simp add: hello_role hello_viewer_def)
qed

end
